theory Spec2Isabelle
  imports Main "HOL-Library.AList" "HOL-Library.List_Lexorder" "HOL-Library.Char_ord"
begin

section \<open>Python string primitives\<close>

text \<open>
  Strings are lists of 8-bit characters; the model covers ASCII text.  The white space
  of \<^verbatim>\<open>str.split()\<close> and \<^verbatim>\<open>str.strip()\<close> is the ASCII part of Python's
  white space: TAB, LF, VT, FF, CR, FS, GS, RS, US and the blank.
\<close>

definition is_space :: "char \<Rightarrow> bool" where
  "is_space c \<longleftrightarrow>
     c \<in> set [CHR 0x09, CHR 0x0A, CHR 0x0B, CHR 0x0C, CHR 0x0D,
                CHR 0x1C, CHR 0x1D, CHR 0x1E, CHR 0x1F, CHR 0x20]"

definition lower_char :: "char \<Rightarrow> char" where
  "lower_char c =
     (case map_of (zip ''ABCDEFGHIJKLMNOPQRSTUVWXYZ'' ''abcdefghijklmnopqrstuvwxyz'') c of
        None \<Rightarrow> c | Some d \<Rightarrow> d)"

definition lower :: "string \<Rightarrow> string" where
  "lower s = map lower_char s"

definition strip_chars :: "char list \<Rightarrow> string \<Rightarrow> string" where
  "strip_chars cs s =
     rev (dropWhile (\<lambda>c. c \<in> set cs) (rev (dropWhile (\<lambda>c. c \<in> set cs) s)))"

definition strip :: "string \<Rightarrow> string" where
  "strip s = rev (dropWhile is_space (rev (dropWhile is_space s)))"

text \<open>The argument of \<^verbatim>\<open>.strip('"\'')\<close>: the double and the single quote.\<close>

definition quotes :: "char list" where
  "quotes = [CHR 0x22, CHR 0x27]"

definition strip_quotes :: "string \<Rightarrow> string" where
  "strip_quotes = strip_chars quotes"

text \<open>\<^verbatim>\<open>s.split()\<close>: the maximal runs of characters that are not white space.\<close>

fun split_acc :: "string \<Rightarrow> string \<Rightarrow> string list" where
  "split_acc cur [] = (if cur = [] then [] else [cur])"
| "split_acc cur (c # cs) =
     (if is_space c then (if cur = [] then split_acc [] cs else cur # split_acc [] cs)
      else split_acc (cur @ [c]) cs)"

definition split :: "string \<Rightarrow> string list" where
  "split s = split_acc [] s"

text \<open>\<^verbatim>\<open>sep.join(xs)\<close>.\<close>

fun join :: "string \<Rightarrow> string list \<Rightarrow> string" where
  "join sep [] = []"
| "join sep [x] = x"
| "join sep (x # y # ys) = x @ sep @ join sep (y # ys)"

text \<open>\<^verbatim>\<open>s.startswith(p)\<close> and the substring test \<^verbatim>\<open>p in s\<close>.\<close>

fun startswith :: "string \<Rightarrow> string \<Rightarrow> bool" where
  "startswith s [] = True"
| "startswith [] (p # ps) = False"
| "startswith (c # cs) (p # ps) = (c = p \<and> startswith cs ps)"

fun contains :: "string \<Rightarrow> string \<Rightarrow> bool" where
  "contains [] p = (p = [])"
| "contains (c # cs) p = (startswith (c # cs) p \<or> contains cs p)"

text \<open>\<^verbatim>\<open>any(phrase in s for phrase in phrases)\<close>.\<close>

definition contains_any :: "string \<Rightarrow> string list \<Rightarrow> bool" where
  "contains_any s phrases = list_ex (contains s) phrases"

text \<open>Python's truth value of an optional string: \<^verbatim>\<open>None\<close> and \<^verbatim>\<open>''\<close> are false.\<close>

fun truthy :: "string option \<Rightarrow> bool" where
  "truthy None = False"
| "truthy (Some s) = (s \<noteq> [])"

section \<open>WebTerminal: the intent classifier\<close>

definition natural_indicators :: "string list" where
  "natural_indicators =
     [''how'', ''what'', ''where'', ''when'', ''why'', ''who'', ''which'',
      ''can you'', ''could you'', ''please'', ''i want'', ''i need'', ''i would'',
      [CHR ''i'', CHR 0x27, CHR ''d''],
      ''show me'', ''tell me'', ''give me'', ''help me'', ''find me'',
      ''create'', ''make'', ''build'', ''generate'', ''add'', ''remove'', ''delete'',
      ''count'', ''list'', ''display'', ''print'', ''open'', ''close'',
      ''files'', ''folders'', ''directories'', ''project'', ''items'']"

definition common_words :: "string list" where
  "common_words =
     [''the'', ''a'', ''an'', ''is'', ''are'', ''in'', ''on'', ''at'', ''to'', ''for'',
      ''of'', ''with'']"

definition looks_like_natural_language :: "string \<Rightarrow> bool" where
  "looks_like_natural_language command =
     (let cmd_lower = strip (lower command) in
      if contains_any cmd_lower natural_indicators then True
      else (let words = split cmd_lower in
            if length words > 2 \<and> list_ex (\<lambda>word. word \<in> set common_words) words
            then True else False))"

section \<open>WebTerminal: the deterministic pattern resolver\<close>

text \<open>
  Each \<^verbatim>\<open>for i, word in enumerate(words)\<close> loop of
  \<^verbatim>\<open>parse_with_fallback_patterns\<close> is a recursive function over the remaining
  lower-cased words, with the index \<open>i\<close> and the original words \<open>ow\<close>; each returns the
  value at which the loop returns or breaks, or \<open>None\<close> when the loop runs to its end.
\<close>

definition named_called :: "string list" where
  "named_called = [''named'', ''called'']"

definition filename_like :: "string \<Rightarrow> bool" where
  "filename_like word \<longleftrightarrow> CHR ''.'' \<in> set word \<and> \<not> startswith word ''.''"

text \<open>Deletion of a folder: the name after named/called, or after folder/directory.\<close>

fun rmdir_target :: "string list \<Rightarrow> string list \<Rightarrow> nat \<Rightarrow> string option" where
  "rmdir_target [] ow i = None"
| "rmdir_target (word # ws) ow i =
     (if word \<in> set named_called \<and> i + 1 < length ow
      then Some (strip_quotes (ow ! (i + 1)))
      else if word \<in> set [''folder'', ''directory''] \<and> i + 1 < length ow
      then (let next_word = strip_quotes (ow ! (i + 1)) in
            if next_word \<notin> set named_called then Some next_word
            else rmdir_target ws ow (i + 1))
      else rmdir_target ws ow (i + 1))"

text \<open>Deletion of a file, second loop: the name after named/called, or after file.\<close>

fun rm_keyword_target :: "string list \<Rightarrow> string list \<Rightarrow> nat \<Rightarrow> string option" where
  "rm_keyword_target [] ow i = None"
| "rm_keyword_target (word # ws) ow i =
     (if word \<in> set named_called \<and> i + 1 < length ow
      then Some (strip_quotes (ow ! (i + 1)))
      else if word = ''file'' \<and> i + 1 < length ow
      then (let next_word = strip_quotes (ow ! (i + 1)) in
            if next_word \<notin> set named_called then Some next_word
            else rm_keyword_target ws ow (i + 1))
      else rm_keyword_target ws ow (i + 1))"

text \<open>Deletion of a file, third loop: the word after a deletion verb.\<close>

fun rm_verb_target :: "string list \<Rightarrow> string list \<Rightarrow> nat \<Rightarrow> string option" where
  "rm_verb_target [] ow i = None"
| "rm_verb_target (word # ws) ow i =
     (if word \<in> set [''delete'', ''remove'', ''del''] \<and> i + 1 < length ow
      then (let next_word = strip_quotes (ow ! (i + 1)) in
            if next_word \<notin> set [''the'', ''a'', ''an'', ''file'', ''named'', ''called'']
            then Some next_word
            else rm_verb_target ws ow (i + 1))
      else rm_verb_target ws ow (i + 1))"

text \<open>Creation of a file: the loop that sets \<^verbatim>\<open>filename\<close> and breaks.\<close>

fun touch_target :: "string list \<Rightarrow> string list \<Rightarrow> nat \<Rightarrow> string option" where
  "touch_target [] ow i = None"
| "touch_target (word # ws) ow i =
     (if word \<in> set named_called \<and> i + 1 < length ow
      then Some (strip_quotes (ow ! (i + 1)))
      else if word = ''file'' \<and> i + 1 < length ow
              \<and> lower (ow ! (i + 1)) \<notin> set named_called
      then Some (strip_quotes (ow ! (i + 1)))
      else touch_target ws ow (i + 1))"

text \<open>Creation of a folder: the loop that sets \<^verbatim>\<open>dirname\<close> and breaks.\<close>

fun mkdir_target :: "string list \<Rightarrow> string list \<Rightarrow> nat \<Rightarrow> string option" where
  "mkdir_target [] ow i = None"
| "mkdir_target (word # ws) ow i =
     (if word \<in> set named_called \<and> i + 1 < length ow
      then Some (strip_quotes (ow ! (i + 1)))
      else if word \<in> set [''folder'', ''directory''] \<and> i + 1 < length ow
      then (let next_word = strip_quotes (ow ! (i + 1)) in
            if lower next_word \<notin> set named_called then Some next_word
            else mkdir_target ws ow (i + 1))
      else mkdir_target ws ow (i + 1))"

text \<open>Writing: the word after the first to/in that has a successor.\<close>

fun write_target :: "string list \<Rightarrow> string list \<Rightarrow> nat \<Rightarrow> string option" where
  "write_target [] ow i = None"
| "write_target (word # ws) ow i =
     (if lower word \<in> set [''to'', ''in''] \<and> i + 1 < length ow
      then Some (strip_quotes (ow ! (i + 1)))
      else write_target ws ow (i + 1))"

text \<open>
  Writing: the words after \<^verbatim>\<open>write\<close> up to the first to/in; the flag is
  \<^verbatim>\<open>collecting\<close>.
\<close>

fun content_parts :: "bool \<Rightarrow> string list \<Rightarrow> string list" where
  "content_parts collecting [] = []"
| "content_parts collecting (word # ws) =
     (if lower word = ''write'' then content_parts True ws
      else if lower word \<in> set [''to'', ''in''] then []
      else if collecting then word # content_parts collecting ws
      else content_parts collecting ws)"

text \<open>The first word that looks like a file name, with its quotes stripped.\<close>

definition first_filename_like :: "string list \<Rightarrow> string option" where
  "first_filename_like ow = map_option strip_quotes (List.find filename_like ow)"

definition add_extension :: "string \<Rightarrow> string \<Rightarrow> string" where
  "add_extension cmd_lower filename =
     (if CHR ''.'' \<notin> set filename then
        (if contains cmd_lower ''python'' then filename @ ''.py''
         else if contains cmd_lower ''txt'' \<or> contains cmd_lower ''text'' then filename @ ''.txt''
         else if contains cmd_lower ''html'' then filename @ ''.html''
         else if contains cmd_lower ''css'' then filename @ ''.css''
         else if contains cmd_lower ''js'' \<or> contains cmd_lower ''javascript''
         then filename @ ''.js''
         else filename @ ''.txt'')
      else filename)"

text \<open>The first rule: exactly two words, the first an imperative.\<close>

definition two_word_rule :: "string list \<Rightarrow> string option" where
  "two_word_rule ow =
     (if length ow = 2 then
        (let action = lower (ow ! 0); target = ow ! 1 in
         if action \<in> set [''delete'', ''remove'', ''del''] then Some (''rm '' @ target)
         else if action \<in> set [''create'', ''make''] then Some (''touch '' @ target)
         else if action \<in> set [''mkdir''] then Some (''mkdir '' @ target)
         else if action \<in> set [''rmdir''] then Some (''rmdir '' @ target)
         else None)
      else None)"

definition deletion_rule :: "string \<Rightarrow> string list \<Rightarrow> string" where
  "deletion_rule cmd_lower ow =
     (if contains cmd_lower ''folder'' \<or> contains cmd_lower ''directory'' then
        (case rmdir_target (split cmd_lower) ow 0 of
           Some t \<Rightarrow> ''rmdir '' @ t
         | None \<Rightarrow> ''rmdir temp'')
      else
        (case List.find (\<lambda>word. filename_like word
                  \<and> lower word \<notin> set [''delete'', ''remove'', ''del'', ''file'', ''the'']) ow of
           Some word \<Rightarrow> ''rm '' @ strip_quotes word
         | None \<Rightarrow>
            (case rm_keyword_target (split cmd_lower) ow 0 of
               Some t \<Rightarrow> ''rm '' @ t
             | None \<Rightarrow>
                (case rm_verb_target (split cmd_lower) ow 0 of
                   Some t \<Rightarrow> ''rm '' @ t
                 | None \<Rightarrow> ''rm temp.txt''))))"

text \<open>
  The creation rule returns a command when the line mentions a file, a folder or a
  directory, and otherwise falls through to the rules below it.
\<close>

definition creation_rule :: "string \<Rightarrow> string list \<Rightarrow> string option" where
  "creation_rule cmd_lower ow =
     (if contains cmd_lower ''file'' then
        (let filename = touch_target (split cmd_lower) ow 0;
             filename = (if \<not> truthy filename then first_filename_like ow else filename) in
         if truthy filename then Some (''touch '' @ add_extension cmd_lower (the filename))
         else Some ''touch newfile.txt'')
      else if contains cmd_lower ''folder'' \<or> contains cmd_lower ''directory'' then
        (let dirname = mkdir_target (split cmd_lower) ow 0 in
         if truthy dirname then Some (''mkdir '' @ the dirname) else Some ''mkdir newfolder'')
      else None)"

definition write_rule :: "string list \<Rightarrow> string option" where
  "write_rule ow =
     (let filename = write_target ow ow 0;
          filename = (if \<not> truthy filename then first_filename_like ow else filename) in
      if truthy filename then
        (let content = strip_quotes (join '' '' (content_parts False ow)) in
         if content \<noteq> [] then Some (''echo '' @ content @ '' > '' @ the filename)
         else Some (''touch '' @ the filename))
      else None)"

definition listing_phrases :: "string list" where
  "listing_phrases = [''show'', ''list'', ''what files'', ''see files'', ''display files'']"

definition here_phrases :: "string list" where
  "here_phrases =
     [[CHR ''w'', CHR ''h'', CHR ''a'', CHR ''t'', CHR 0x27, CHR ''s'', CHR '' '',
       CHR ''h'', CHR ''e'', CHR ''r'', CHR ''e''],
      ''what is here'', ''contents'']"

definition listing_rule :: "string \<Rightarrow> string option" where
  "listing_rule cmd_lower =
     (if contains_any cmd_lower listing_phrases then Some ''ls''
      else if contains_any cmd_lower here_phrases then Some ''ls''
      else None)"

definition parse_with_fallback_patterns :: "string \<Rightarrow> string option" where
  "parse_with_fallback_patterns command =
     (let cmd_lower = strip (lower command); original_words = split command in
      case two_word_rule original_words of
        Some r \<Rightarrow> Some r
      | None \<Rightarrow>
         if contains_any cmd_lower [''count'', ''how many'', ''number of files'', ''files count'']
         then Some ''count''
         else if contains_any cmd_lower [''delete'', ''remove'', ''del'']
         then Some (deletion_rule cmd_lower original_words)
         else
           (case (if contains cmd_lower ''create'' \<or> contains cmd_lower ''make''
                  then creation_rule cmd_lower original_words else None) of
              Some r \<Rightarrow> Some r
            | None \<Rightarrow>
               (case (if contains cmd_lower ''write''
                         \<and> (contains cmd_lower ''to'' \<or> contains cmd_lower ''in'')
                      then write_rule original_words else None) of
                  Some r \<Rightarrow> Some r
                | None \<Rightarrow> listing_rule cmd_lower)))"

section \<open>The operating system: paths and the file system\<close>

text \<open>
  The file system is a finite table from absolute, normalised paths (the list of names
  from the root) to nodes; the root is always a directory.  It holds regular files and
  directories only: no symbolic links, no devices or other special files, no
  permissions and no quotas, so the only failures are those of the names: a missing
  entry, a file where a directory is needed, a directory where a file is needed, an
  entry that exists already, a directory that is not empty, the root (which is busy),
  an embedded NUL.
\<close>

datatype node = File string | Dir

type_synonym path = "string list"

record os_state =
  files :: "(path \<times> node) list"
  cwd :: path

datatype os_error =
    FileNotFoundError | FileExistsError | NotADirectoryError | IsADirectoryError
  | DirectoryNotEmpty | InvalidArgument | ResourceBusy | ValueError

definition lookup :: "(path \<times> node) list \<Rightarrow> path \<Rightarrow> node option" where
  "lookup fs p = (if p = [] then Some Dir else map_of fs p)"

definition is_dir :: "(path \<times> node) list \<Rightarrow> path \<Rightarrow> bool" where
  "is_dir fs p \<longleftrightarrow> lookup fs p = Some Dir"

text \<open>The names in a directory: the last name of every entry directly below it.\<close>

definition children :: "(path \<times> node) list \<Rightarrow> path \<Rightarrow> string list" where
  "children fs p = remdups (map last (filter (\<lambda>k. k \<noteq> [] \<and> butlast k = p) (map fst fs)))"

text \<open>\<^verbatim>\<open>s.split('/')\<close>: the pieces between the separators, empty pieces included.\<close>

fun components :: "string \<Rightarrow> string list" where
  "components [] = [[]]"
| "components (c # cs) =
     (if c = CHR ''/'' then [] # components cs
      else (case components cs of [] \<Rightarrow> [[c]] | x # xs \<Rightarrow> (c # x) # xs))"

text \<open>
  Path resolution as the kernel does it: every component is looked up in a directory
  that exists, \<^verbatim>\<open>.\<close> stays, \<^verbatim>\<open>..\<close> goes to the parent.  The result is the
  location the path denotes; whether an entry exists there is not checked.
\<close>

fun walk :: "(path \<times> node) list \<Rightarrow> path \<Rightarrow> string list \<Rightarrow> os_error + path" where
  "walk fs st [] = Inr st"
| "walk fs st (c # cs) =
     (case lookup fs st of
        None \<Rightarrow> Inl FileNotFoundError
      | Some (File _) \<Rightarrow> Inl NotADirectoryError
      | Some Dir \<Rightarrow>
          if c = [] \<or> c = ''.'' then walk fs st cs
          else if c = ''..'' then walk fs (butlast st) cs
          else walk fs (st @ [c]) cs)"

definition isabs :: "string \<Rightarrow> bool" where
  "isabs s = startswith s ''/''"

definition resolve :: "os_state \<Rightarrow> string \<Rightarrow> os_error + path" where
  "resolve os s =
     (if CHR 0x00 \<in> set s then Inl ValueError
      else if s = [] then Inl FileNotFoundError
      else walk (files os) (if isabs s then [] else cwd os) (components s))"

text \<open>\<^verbatim>\<open>os.path.exists\<close>, \<^verbatim>\<open>isdir\<close>, \<^verbatim>\<open>isfile\<close>: false on every error.\<close>

definition stat :: "os_state \<Rightarrow> string \<Rightarrow> node option" where
  "stat os s = (case resolve os s of Inl _ \<Rightarrow> None | Inr p \<Rightarrow> lookup (files os) p)"

definition exists :: "os_state \<Rightarrow> string \<Rightarrow> bool" where
  "exists os s \<longleftrightarrow> stat os s \<noteq> None"

definition isdir :: "os_state \<Rightarrow> string \<Rightarrow> bool" where
  "isdir os s \<longleftrightarrow> stat os s = Some Dir"

definition isfile :: "os_state \<Rightarrow> string \<Rightarrow> bool" where
  "isfile os s \<longleftrightarrow> (case stat os s of Some (File _) \<Rightarrow> True | _ \<Rightarrow> False)"

definition listdir :: "os_state \<Rightarrow> string \<Rightarrow> os_error + string list" where
  "listdir os s =
     (case resolve os s of
        Inl e \<Rightarrow> Inl e
      | Inr p \<Rightarrow>
          (case lookup (files os) p of
             None \<Rightarrow> Inl FileNotFoundError
           | Some (File _) \<Rightarrow> Inl NotADirectoryError
           | Some Dir \<Rightarrow> Inr (children (files os) p)))"

text \<open>\<^verbatim>\<open>os.remove\<close>: unlinks a file.\<close>

definition remove :: "os_state \<Rightarrow> string \<Rightarrow> os_error + os_state" where
  "remove os s =
     (case resolve os s of
        Inl e \<Rightarrow> Inl e
      | Inr p \<Rightarrow>
          (case lookup (files os) p of
             None \<Rightarrow> Inl FileNotFoundError
           | Some Dir \<Rightarrow> Inl IsADirectoryError
           | Some (File _) \<Rightarrow> Inr (os\<lparr>files := AList.delete p (files os)\<rparr>)))"

text \<open>The last name written in a path, trailing separators aside.\<close>

definition last_name :: "string \<Rightarrow> string" where
  "last_name s = (case filter (\<lambda>c. c \<noteq> []) (components s) of [] \<Rightarrow> [] | cs \<Rightarrow> last cs)"

text \<open>
  \<^verbatim>\<open>os.rmdir\<close>: removes a directory that is empty.  A path that ends in \<^verbatim>\<open>.\<close>
  is refused as an invalid argument, one that ends in \<^verbatim>\<open>..\<close> as not empty, and the
  root as busy, whatever the directory holds.
\<close>

definition rmdir :: "os_state \<Rightarrow> string \<Rightarrow> os_error + os_state" where
  "rmdir os s =
     (case resolve os s of
        Inl e \<Rightarrow> Inl e
      | Inr p \<Rightarrow>
          (case lookup (files os) p of
             None \<Rightarrow> Inl FileNotFoundError
           | Some (File _) \<Rightarrow> Inl NotADirectoryError
           | Some Dir \<Rightarrow>
               if last_name s = ''.'' then Inl InvalidArgument
               else if last_name s = ''..'' then Inl DirectoryNotEmpty
               else if p = [] then Inl ResourceBusy
               else if children (files os) p \<noteq> [] then Inl DirectoryNotEmpty
               else Inr (os\<lparr>files := AList.delete p (files os)\<rparr>)))"

text \<open>
  \<^verbatim>\<open>shutil.rmtree\<close>: opens the directory, removes everything below it, and then
  calls \<^verbatim>\<open>os.rmdir\<close> on the path as it was given.  When that last call fails (the path
  ends in \<^verbatim>\<open>.\<close> or \<^verbatim>\<open>..\<close>, or passes through a directory that has just been
  removed) the directory stays, emptied, so the state is returned in both cases.
\<close>

definition below :: "path \<Rightarrow> path \<Rightarrow> bool" where
  "below p k \<longleftrightarrow> length p < length k \<and> take (length p) k = p"

definition rmtree :: "os_state \<Rightarrow> string \<Rightarrow> os_state \<times> os_error option" where
  "rmtree os s =
     (case resolve os s of
        Inl e \<Rightarrow> (os, Some e)
      | Inr p \<Rightarrow>
          (case lookup (files os) p of
             None \<Rightarrow> (os, Some FileNotFoundError)
           | Some (File _) \<Rightarrow> (os, Some NotADirectoryError)
           | Some Dir \<Rightarrow>
               (let emptied = os\<lparr>files := filter (\<lambda>(k, n). \<not> below p k) (files os)\<rparr>
                in case rmdir emptied s of
                     Inl e \<Rightarrow> (emptied, Some e)
                   | Inr os' \<Rightarrow> (os', None))))"

text \<open>
  Opening a path for writing (\<^verbatim>\<open>O_CREAT\<close>).  A path whose last name is followed by a
  separator can only denote a directory: once the directory that holds the name is
  reached, the answer is \<^verbatim>\<open>IsADirectoryError\<close>, whether the name is missing, a file or
  a directory.  Every other path is resolved as usual.
\<close>

definition names_of :: "string list \<Rightarrow> string list" where
  "names_of cs = rev (dropWhile (\<lambda>c. c = []) (rev cs))"

definition creat_walk :: "(path \<times> node) list \<Rightarrow> path \<Rightarrow> string list \<Rightarrow> os_error + path" where
  "creat_walk fs st cs =
     (if names_of cs \<noteq> cs \<and> names_of cs \<noteq> []
         \<and> last (names_of cs) \<noteq> ''.'' \<and> last (names_of cs) \<noteq> ''..''
      then (case walk fs st (butlast (names_of cs)) of
              Inl e \<Rightarrow> Inl e
            | Inr p \<Rightarrow>
                (case lookup fs p of
                   None \<Rightarrow> Inl FileNotFoundError
                 | Some (File _) \<Rightarrow> Inl NotADirectoryError
                 | Some Dir \<Rightarrow> Inl IsADirectoryError))
      else walk fs st cs)"

definition resolve_creat :: "os_state \<Rightarrow> string \<Rightarrow> os_error + path" where
  "resolve_creat os s =
     (if CHR 0x00 \<in> set s then Inl ValueError
      else if s = [] then Inl FileNotFoundError
      else creat_walk (files os) (if isabs s then [] else cwd os) (components s))"

text \<open>
  \<^verbatim>\<open>open(path, 'w').write(content)\<close>, \<^verbatim>\<open>open(path, 'a')\<close> and
  \<^verbatim>\<open>open(path, 'r').read()\<close>.
\<close>

definition write_file :: "os_state \<Rightarrow> string \<Rightarrow> string \<Rightarrow> os_error + os_state" where
  "write_file os s content =
     (case resolve_creat os s of
        Inl e \<Rightarrow> Inl e
      | Inr p \<Rightarrow>
          (case lookup (files os) p of
             Some Dir \<Rightarrow> Inl IsADirectoryError
           | _ \<Rightarrow> Inr (os\<lparr>files := AList.update p (File content) (files os)\<rparr>)))"

definition append_file :: "os_state \<Rightarrow> string \<Rightarrow> os_error + os_state" where
  "append_file os s =
     (case resolve_creat os s of
        Inl e \<Rightarrow> Inl e
      | Inr p \<Rightarrow>
          (case lookup (files os) p of
             Some Dir \<Rightarrow> Inl IsADirectoryError
           | Some (File _) \<Rightarrow> Inr os
           | None \<Rightarrow> Inr (os\<lparr>files := AList.update p (File []) (files os)\<rparr>)))"

text \<open>
  Reading in text mode translates the line ends \<^verbatim>\<open>\r\n\<close> and \<^verbatim>\<open>\r\<close> to
  \<^verbatim>\<open>\n\<close>; writing in text mode on POSIX changes nothing.
\<close>

fun universal_newlines :: "string \<Rightarrow> string" where
  "universal_newlines [] = []"
| "universal_newlines [c] = [if c = CHR 0x0D then CHR 0x0A else c]"
| "universal_newlines (c # d # ds) =
     (if c = CHR 0x0D then
        (if d = CHR 0x0A then CHR 0x0A # universal_newlines ds
         else CHR 0x0A # universal_newlines (d # ds))
      else c # universal_newlines (d # ds))"

definition read_file :: "os_state \<Rightarrow> string \<Rightarrow> os_error + string" where
  "read_file os s =
     (case resolve os s of
        Inl e \<Rightarrow> Inl e
      | Inr p \<Rightarrow>
          (case lookup (files os) p of
             None \<Rightarrow> Inl FileNotFoundError
           | Some Dir \<Rightarrow> Inl IsADirectoryError
           | Some (File content) \<Rightarrow> Inr (universal_newlines content)))"

text \<open>
  \<^verbatim>\<open>os.makedirs(path, exist_ok=True)\<close>: walks the path and creates every directory
  that is missing on the way.  The directories created before a failure stay, so the
  table is returned in both cases.  A regular file at the end of the path, also when
  only separators follow it, is reported as existing; a regular file that the path
  goes through is reported as not being a directory.
\<close>

fun makedirs_walk ::
  "(path \<times> node) list \<Rightarrow> path \<Rightarrow> string list \<Rightarrow> (path \<times> node) list \<times> os_error option" where
  "makedirs_walk fs st [] =
     (case lookup fs st of
        None \<Rightarrow> (AList.update st Dir fs, None)
      | Some (File _) \<Rightarrow> (fs, Some FileExistsError)
      | Some Dir \<Rightarrow> (fs, None))"
| "makedirs_walk fs st (c # cs) =
     (case lookup fs st of
        Some (File _) \<Rightarrow>
          (fs, Some (if concat (c # cs) = [] then FileExistsError else NotADirectoryError))
      | r \<Rightarrow>
          (let fs1 = (if r = None then AList.update st Dir fs else fs) in
           if c = [] \<or> c = ''.'' then makedirs_walk fs1 st cs
           else if c = ''..'' then makedirs_walk fs1 (butlast st) cs
           else makedirs_walk fs1 (st @ [c]) cs))"

definition makedirs :: "os_state \<Rightarrow> string \<Rightarrow> os_state \<times> os_error option" where
  "makedirs os s =
     (if CHR 0x00 \<in> set s then (os, Some ValueError)
      else if s = [] then (os, Some FileNotFoundError)
      else if \<not> isabs s \<and> \<not> is_dir (files os) (cwd os) then (os, Some FileNotFoundError)
      else (case makedirs_walk (files os) (if isabs s then [] else cwd os) (components s) of
              (fs, r) \<Rightarrow> (os\<lparr>files := fs\<rparr>, r)))"

text \<open>\<^verbatim>\<open>os.chdir\<close> and \<^verbatim>\<open>os.getcwd\<close>.\<close>

definition chdir :: "os_state \<Rightarrow> string \<Rightarrow> os_error + os_state" where
  "chdir os s =
     (case resolve os s of
        Inl e \<Rightarrow> Inl e
      | Inr p \<Rightarrow>
          (case lookup (files os) p of
             None \<Rightarrow> Inl FileNotFoundError
           | Some (File _) \<Rightarrow> Inl NotADirectoryError
           | Some Dir \<Rightarrow> Inr (os\<lparr>cwd := p\<rparr>)))"

definition getcwd :: "os_state \<Rightarrow> string" where
  "getcwd os = ''/'' @ join ''/'' (cwd os)"

text \<open>\<^verbatim>\<open>os.path.join\<close> of two paths, \<^verbatim>\<open>normpath\<close> and \<^verbatim>\<open>abspath\<close> (POSIX).\<close>

definition path_join :: "string \<Rightarrow> string \<Rightarrow> string" where
  "path_join a b =
     (if startswith b ''/'' then b
      else if a = [] \<or> last a = CHR ''/'' then a @ b
      else a @ ''/'' @ b)"

fun normpath_comps :: "bool \<Rightarrow> string list \<Rightarrow> string list \<Rightarrow> string list" where
  "normpath_comps initial_slashes new_comps [] = new_comps"
| "normpath_comps initial_slashes new_comps (c # cs) =
     (if c = [] \<or> c = ''.'' then normpath_comps initial_slashes new_comps cs
      else if c \<noteq> ''..'' \<or> (\<not> initial_slashes \<and> new_comps = [])
                \<or> (new_comps \<noteq> [] \<and> last new_comps = ''..'')
      then normpath_comps initial_slashes (new_comps @ [c]) cs
      else if new_comps \<noteq> [] then normpath_comps initial_slashes (butlast new_comps) cs
      else normpath_comps initial_slashes new_comps cs)"

definition normpath :: "string \<Rightarrow> string" where
  "normpath p =
     (if p = [] then ''.''
      else
        (let initial_slashes = startswith p ''/'';
             two = (startswith p ''//'' \<and> \<not> startswith p ''///'');
             body = join ''/'' (normpath_comps initial_slashes [] (components p));
             r = (if initial_slashes then (if two then ''//'' else ''/'') @ body else body)
         in if r = [] then ''.'' else r))"

text \<open>
  \<^verbatim>\<open>abspath\<close> joins a relative path to the working directory of the process and
  normalises the result; the normalisation works on the text of the path alone.
\<close>

definition absolute :: "os_state \<Rightarrow> string \<Rightarrow> string" where
  "absolute os p = (if isabs p then p else path_join (getcwd os) p)"

definition abspath :: "os_state \<Rightarrow> string \<Rightarrow> string" where
  "abspath os p = normpath (absolute os p)"

text \<open>A path none of whose components is \<^verbatim>\<open>..\<close>.\<close>

definition no_dotdot :: "string \<Rightarrow> bool" where
  "no_dotdot p \<longleftrightarrow> ''..'' \<notin> set (components p)"

text \<open>The components lead, from the directory \<open>st\<close>, to a directory.\<close>

definition walks_to_dir :: "(path \<times> node) list \<Rightarrow> path \<Rightarrow> string list \<Rightarrow> bool" where
  "walks_to_dir fs st cs = (case walk fs st cs of Inl _ \<Rightarrow> False | Inr p \<Rightarrow> is_dir fs p)"

section \<open>PythonTerminal (index.py)\<close>

record session =
  current_directory :: string

text \<open>
  \<^verbatim>\<open>prev_directory\<close> is an attribute that does not exist until the first successful
  \<^verbatim>\<open>cd\<close>; \<^verbatim>\<open>getattr(self, 'prev_directory', self.current_directory)\<close> reads it.
\<close>

record python_terminal = session +
  prev_directory :: "string option"
  running :: bool

datatype cd_output = Changed_to string | No_such_directory string | Cd_error os_error

text \<open>
  The path that the argument of \<^verbatim>\<open>cmd_cd\<close> stands for (\<open>home\<close> is the value of
  \<^verbatim>\<open>os.path.expanduser('~')\<close>), and the path that \<^verbatim>\<open>cmd_cd\<close> tests: its
  \<^verbatim>\<open>abspath\<close>.
\<close>

definition cd_target :: "string \<Rightarrow> python_terminal \<Rightarrow> string \<Rightarrow> string" where
  "cd_target home t path =
     (if path = ''~'' then home
      else if path = ''-'' then
        (case prev_directory t of Some p \<Rightarrow> p | None \<Rightarrow> current_directory t)
      else if \<not> isabs path then path_join (current_directory t) path
      else path)"

definition cd_path :: "string \<Rightarrow> python_terminal \<Rightarrow> os_state \<Rightarrow> string \<Rightarrow> string" where
  "cd_path home t os path = abspath os (cd_target home t path)"

definition cmd_cd ::
  "string \<Rightarrow> python_terminal \<times> os_state \<Rightarrow> string
     \<Rightarrow> (python_terminal \<times> os_state) \<times> cd_output" where
  "cmd_cd home s path =
     (case s of (t, os) \<Rightarrow>
        (let path = cd_path home t os path in
         if exists os path \<and> isdir os path then
           (let t = t\<lparr>prev_directory := Some (current_directory t)\<rparr>;
                t = t\<lparr>current_directory := path\<rparr>
            in case chdir os (current_directory t) of
                 Inr os' \<Rightarrow> ((t, os'), Changed_to (current_directory t))
               | Inl e \<Rightarrow> ((t, os), Cd_error e))
         else ((t, os), No_such_directory path)))"

datatype rm_output =
  Rm_missing_operand | Rm_removed string | Rm_no_such_file string | Rm_failed string os_error

text \<open>The body of the loop of \<^verbatim>\<open>cmd_rm\<close>, for one name.\<close>

definition rm_one :: "os_state \<Rightarrow> string \<Rightarrow> os_state \<times> rm_output" where
  "rm_one os file_name =
     (if isfile os file_name then
        (case remove os file_name of
           Inr os' \<Rightarrow> (os', Rm_removed file_name)
         | Inl e \<Rightarrow> (os, Rm_failed file_name e))
      else (os, Rm_no_such_file file_name))"

fun rm_loop :: "os_state \<Rightarrow> string list \<Rightarrow> os_state \<times> rm_output list" where
  "rm_loop os [] = (os, [])"
| "rm_loop os (file_name # rest) =
     (case rm_one os file_name of
        (os1, out) \<Rightarrow> (case rm_loop os1 rest of (os2, outs) \<Rightarrow> (os2, out # outs)))"

definition cmd_rm :: "os_state \<Rightarrow> string list \<Rightarrow> os_state \<times> rm_output list" where
  "cmd_rm os args = (if args = [] then (os, [Rm_missing_operand]) else rm_loop os args)"

text \<open>
  \<^verbatim>\<open>execute_command\<close>: a blank line returns at once; any other line is appended to
  the history, the oldest entry is dropped when there are more than 100, and the line
  is parsed and run.  The handlers of the commands read and write the terminal's other
  attributes and the operating system, never \<^verbatim>\<open>command_history\<close>; \<open>handlers\<close> stands
  for them and acts on that rest of the state.
\<close>

definition execute_command ::
  "(string \<Rightarrow> 'st \<Rightarrow> 'st) \<Rightarrow> string list \<times> 'st \<Rightarrow> string \<Rightarrow> string list \<times> 'st" where
  "execute_command handlers s command_line =
     (case s of (command_history, rest) \<Rightarrow>
        if strip command_line = [] then s
        else
          (let command_history = command_history @ [command_line];
               command_history =
                 (if length command_history > 100 then tl command_history
                  else command_history)
           in (command_history, handlers command_line rest)))"

text \<open>A session: the lines are executed one after the other.\<close>

definition run_lines ::
  "(string \<Rightarrow> 'st \<Rightarrow> 'st) \<Rightarrow> string list \<times> 'st \<Rightarrow> string list \<Rightarrow> string list \<times> 'st" where
  "run_lines handlers s command_lines = foldl (execute_command handlers) s command_lines"

section \<open>WebTerminal (streamlit\_app.py): the built-in commands\<close>

datatype line =
    Directory_created string | Error_creating_directory string os_error
  | File_created_updated string | Error_creating_file string os_error
  | File_contents string string | Cat_file_not_found string | Error_reading_file string os_error
  | File_removed string | Cannot_remove_directory string | File_not_found string
  | Error_removing_file string os_error
  | Directory_removed string | Directory_not_empty string | Directory_not_found string
  | Error_removing_directory string os_error
  | Directory_and_contents_removed string

datatype response =
    No_response | Help_text | Current_directory_is string
  | Directory_is_empty | Directory_contents "(string \<times> bool) list" | Error_listing os_error
  | File_count nat nat nat | Error_counting os_error
  | Lines "line list"
  | Echo_text string | Content_written string | Error_writing os_error
  | File_edited string | Error_editing string os_error
  | Screen_cleared | No_history | History_list "string list" | Ai_status bool
  | Dont_understand | System_output string | Exit_code int | Not_available string
  | Command_error

text \<open>The loop over the arguments that every multi-target command runs.\<close>

fun for_each ::
  "(os_state \<Rightarrow> string \<Rightarrow> os_state \<times> line) \<Rightarrow> os_state \<Rightarrow> string list
     \<Rightarrow> os_state \<times> line list" where
  "for_each body os [] = (os, [])"
| "for_each body os (a # as) =
     (case body os a of
        (os1, r) \<Rightarrow> (case for_each body os1 as of (os2, rs) \<Rightarrow> (os2, r # rs)))"

definition mkdir_one :: "string \<Rightarrow> os_state \<Rightarrow> string \<Rightarrow> os_state \<times> line" where
  "mkdir_one current_dir os dirname =
     (case makedirs os (path_join current_dir dirname) of
        (os', None) \<Rightarrow> (os', Directory_created dirname)
      | (os', Some e) \<Rightarrow> (os', Error_creating_directory dirname e))"

definition web_cmd_mkdir :: "string \<Rightarrow> os_state \<Rightarrow> string list \<Rightarrow> os_state \<times> line list" where
  "web_cmd_mkdir current_dir = for_each (mkdir_one current_dir)"

definition touch_one :: "string \<Rightarrow> os_state \<Rightarrow> string \<Rightarrow> os_state \<times> line" where
  "touch_one current_dir os filename =
     (case append_file os (path_join current_dir filename) of
        Inr os' \<Rightarrow> (os', File_created_updated filename)
      | Inl e \<Rightarrow> (os, Error_creating_file filename e))"

definition web_cmd_touch :: "string \<Rightarrow> os_state \<Rightarrow> string list \<Rightarrow> os_state \<times> line list" where
  "web_cmd_touch current_dir = for_each (touch_one current_dir)"

definition cat_one :: "string \<Rightarrow> os_state \<Rightarrow> string \<Rightarrow> os_state \<times> line" where
  "cat_one current_dir os filename =
     (case read_file os (path_join current_dir filename) of
        Inr content \<Rightarrow> (os, File_contents filename content)
      | Inl FileNotFoundError \<Rightarrow> (os, Cat_file_not_found filename)
      | Inl e \<Rightarrow> (os, Error_reading_file filename e))"

definition web_cmd_cat :: "string \<Rightarrow> os_state \<Rightarrow> string list \<Rightarrow> os_state \<times> line list" where
  "web_cmd_cat current_dir = for_each (cat_one current_dir)"

definition web_rm_one :: "string \<Rightarrow> os_state \<Rightarrow> string \<Rightarrow> os_state \<times> line" where
  "web_rm_one current_dir os filename =
     (let path = path_join current_dir filename in
      if isfile os path then
        (case remove os path of
           Inr os' \<Rightarrow> (os', File_removed filename)
         | Inl e \<Rightarrow> (os, Error_removing_file filename e))
      else if isdir os path then (os, Cannot_remove_directory filename)
      else (os, File_not_found filename))"

definition web_cmd_rm :: "string \<Rightarrow> os_state \<Rightarrow> string list \<Rightarrow> os_state \<times> line list" where
  "web_cmd_rm current_dir = for_each (web_rm_one current_dir)"

definition rmdir_one :: "string \<Rightarrow> os_state \<Rightarrow> string \<Rightarrow> os_state \<times> line" where
  "rmdir_one current_dir os dirname =
     (let path = path_join current_dir dirname in
      if isdir os path then
        (case listdir os path of
           Inl e \<Rightarrow> (os, Error_removing_directory dirname e)
         | Inr items \<Rightarrow>
             if items \<noteq> [] then (os, Directory_not_empty dirname)
             else (case rmdir os path of
                     Inr os' \<Rightarrow> (os', Directory_removed dirname)
                   | Inl e \<Rightarrow> (os, Error_removing_directory dirname e)))
      else (os, Directory_not_found dirname))"

definition web_cmd_rmdir :: "string \<Rightarrow> os_state \<Rightarrow> string list \<Rightarrow> os_state \<times> line list" where
  "web_cmd_rmdir current_dir = for_each (rmdir_one current_dir)"

definition rmdir_force_one :: "string \<Rightarrow> os_state \<Rightarrow> string \<Rightarrow> os_state \<times> line" where
  "rmdir_force_one current_dir os dirname =
     (let path = path_join current_dir dirname in
      if isdir os path then
        (case rmtree os path of
           (os', None) \<Rightarrow> (os', Directory_and_contents_removed dirname)
         | (os', Some e) \<Rightarrow> (os', Error_removing_directory dirname e))
      else (os, Directory_not_found dirname))"

definition cmd_rmdir_force ::
  "string \<Rightarrow> os_state \<Rightarrow> string list \<Rightarrow> os_state \<times> line list" where
  "cmd_rmdir_force current_dir = for_each (rmdir_force_one current_dir)"

text \<open>\<^verbatim>\<open>args.index(">")\<close> is the length of the words before the first \<^verbatim>\<open>>\<close>.\<close>

definition cmd_echo :: "string \<Rightarrow> os_state \<Rightarrow> string list \<Rightarrow> os_state \<times> response" where
  "cmd_echo current_dir os args =
     (if length args < 3 \<or> ''>'' \<notin> set args then (os, Echo_text (join '' '' args))
      else
        (let redirect_index = length (takeWhile (\<lambda>a. a \<noteq> ''>'') args);
             content = join '' '' (take redirect_index args);
             filename = (if redirect_index + 1 < length args then args ! (redirect_index + 1)
                         else ''output.txt'')
         in case write_file os (path_join current_dir filename) content of
              Inr os' \<Rightarrow> (os', Content_written filename)
            | Inl e \<Rightarrow> (os, Error_writing e)))"

text \<open>\<^verbatim>\<open>cmd_edit\<close> is called with at least one argument.\<close>

definition cmd_edit :: "string \<Rightarrow> os_state \<Rightarrow> string list \<Rightarrow> os_state \<times> response" where
  "cmd_edit current_dir os args =
     (let filename = hd args;
          content = (if length args > 1 then join '' '' (tl args) else [])
      in case write_file os (path_join current_dir filename) content of
           Inr os' \<Rightarrow> (os', File_edited filename)
         | Inl e \<Rightarrow> (os, Error_editing filename e))"

definition cmd_ls :: "string \<Rightarrow> os_state \<Rightarrow> response" where
  "cmd_ls current_dir os =
     (case listdir os current_dir of
        Inl e \<Rightarrow> Error_listing e
      | Inr items \<Rightarrow>
          if items = [] then Directory_is_empty
          else Directory_contents
                 (map (\<lambda>item. (item, isdir os (path_join current_dir item))) (sort items)))"

definition cmd_count :: "string \<Rightarrow> os_state \<Rightarrow> response" where
  "cmd_count current_dir os =
     (case listdir os current_dir of
        Inl e \<Rightarrow> Error_counting e
      | Inr items \<Rightarrow>
          File_count
            (length (filter (\<lambda>item. isfile os (path_join current_dir item)) items))
            (length (filter (\<lambda>item. isdir os (path_join current_dir item)) items))
            (length items))"

definition cmd_history :: "string list \<Rightarrow> response" where
  "cmd_history command_history =
     (if command_history = [] then No_history
      else History_list (drop (length command_history - 10) command_history))"

section \<open>WebTerminal: natural language and dispatch\<close>

text \<open>
  What the text-generation service answers to one request: status 200 with the text of
  the first candidate (or without one), another status, or no answer at all
  (\<^verbatim>\<open>requests.post\<close> raises on a timeout or a transport failure, \<^verbatim>\<open>response.json()\<close>
  on a malformed body).
\<close>

datatype api_reply = Http_200 "string option" | Http_failure | Request_raises

datatype shell_result = Completed string int | Shell_raises

text \<open>The lines that the terminal itself appends to \<^verbatim>\<open>terminal_output\<close>.\<close>

datatype notice =
  Ai_interpreting string | Key_validation_failed | Ai_api_error | Shown string

text \<open>
  The world outside: whether \<^verbatim>\<open>requests\<close> could be imported, the service (its
  answer to the \<open>n\<close>-th request, for the command in the prompt) and the shell of
  \<^verbatim>\<open>subprocess.run\<close> (command line, working directory).
\<close>

record environment =
  has_requests :: bool
  service :: "nat \<Rightarrow> string \<Rightarrow> api_reply"
  shell :: "string \<Rightarrow> string \<Rightarrow> os_state \<Rightarrow> os_state \<times> shell_result"

text \<open>
  The terminal object together with the session state it writes; \<open>api_calls\<close> counts
  the requests sent.  The time-stamped \<^verbatim>\<open>session_log\<close> is left out: nothing reads it.
\<close>

record web_terminal = session +
  gemini_api_key :: string
  ai_enabled :: bool
  command_history :: "string list"
  terminal_output :: "notice list"
  api_calls :: nat

definition call_gemini_api ::
  "environment \<Rightarrow> web_terminal \<Rightarrow> string \<Rightarrow> web_terminal \<times> string option" where
  "call_gemini_api env t command =
     (if gemini_api_key t = [] \<or> \<not> has_requests env then (t, None)
      else
        (let reply = service env (api_calls t) command;
             t = t\<lparr>api_calls := api_calls t + 1\<rparr>
         in case reply of
              Http_200 (Some text) \<Rightarrow> (t, Some (strip text))
            | Http_200 None \<Rightarrow> (t, None)
            | Http_failure \<Rightarrow>
                (t\<lparr>terminal_output := terminal_output t @ [Key_validation_failed],
                    ai_enabled := False\<rparr>, None)
            | Request_raises \<Rightarrow>
                (t\<lparr>terminal_output := terminal_output t @ [Ai_api_error]\<rparr>, None)))"

definition parse_with_gemini ::
  "environment \<Rightarrow> web_terminal \<Rightarrow> string \<Rightarrow> web_terminal \<times> string option" where
  "parse_with_gemini env t command =
     (case call_gemini_api env t command of
        (t', result) \<Rightarrow>
          if truthy result \<and> strip (the result) \<noteq> [] then (t', Some (strip (the result)))
          else (t', None))"

definition parse_natural_language ::
  "environment \<Rightarrow> web_terminal \<Rightarrow> string \<Rightarrow> web_terminal \<times> string option" where
  "parse_natural_language env t command =
     (if ai_enabled t then parse_with_gemini env t command
      else (t, parse_with_fallback_patterns command))"

definition execute_system_command ::
  "environment \<Rightarrow> string \<Rightarrow> os_state \<Rightarrow> string \<Rightarrow> os_state \<times> response" where
  "execute_system_command env current_dir os command_line =
     (case split command_line of
        [] \<Rightarrow> (os, Command_error)
      | command # _ \<Rightarrow>
          if command \<in> set [''echo'', ''date'', ''whoami''] then
            (case shell env command_line current_dir os of
               (os', Completed out returncode) \<Rightarrow>
                 (os', if out \<noteq> [] then System_output out else Exit_code returncode)
             | (os', Shell_raises) \<Rightarrow> (os', Command_error))
          else (os, Not_available command))"

text \<open>
  The chain of tests on the command name in \<^verbatim>\<open>execute_command\<close>: the result of the
  built-in command that accepts the line, or \<open>None\<close> when the chain reaches its
  \<^verbatim>\<open>else\<close>.
\<close>

definition builtin_command ::
  "web_terminal \<times> os_state \<Rightarrow> string list
     \<Rightarrow> ((web_terminal \<times> os_state) \<times> response) option" where
  "builtin_command s args =
     (case s of (t, os) \<Rightarrow>
        (let command = (case args of [] \<Rightarrow> [] | a # _ \<Rightarrow> a);
             dir = current_directory t;
             lines = (\<lambda>r. case r of (os', ls) \<Rightarrow> Some ((t, os'), Lines ls));
             single = (\<lambda>r. case r of (os', x) \<Rightarrow> Some ((t, os'), x))
         in if command \<in> set [''help''] then Some (s, Help_text)
            else if command \<in> set [''pwd''] then Some (s, Current_directory_is dir)
            else if command \<in> set [''ls'', ''dir''] then Some (s, cmd_ls dir os)
            else if command = ''count'' then Some (s, cmd_count dir os)
            else if command = ''mkdir'' \<and> length args > 1
            then lines (web_cmd_mkdir dir os (tl args))
            else if command = ''touch'' \<and> length args > 1
            then lines (web_cmd_touch dir os (tl args))
            else if command = ''cat'' \<and> length args > 1
            then lines (web_cmd_cat dir os (tl args))
            else if command \<in> set [''rm'', ''del''] \<and> length args > 1
            then lines (web_cmd_rm dir os (tl args))
            else if command = ''rmdir'' \<and> length args > 1 then
              (if ''-r'' \<in> set args
               then lines (cmd_rmdir_force dir os (filter (\<lambda>arg. arg \<noteq> ''-r'') (tl args)))
               else lines (web_cmd_rmdir dir os (tl args)))
            else if command = ''echo'' then single (cmd_echo dir os (tl args))
            else if command = ''edit'' \<and> length args > 1
            then single (cmd_edit dir os (tl args))
            else if command = ''clear''
            then Some ((t\<lparr>terminal_output := []\<rparr>, os), Screen_cleared)
            else if command = ''history'' then Some (s, cmd_history (command_history t))
            else if command = ''ai'' then Some (s, Ai_status (ai_enabled t))
            else None))"

text \<open>
  \<^verbatim>\<open>execute_command\<close> calls itself on the resolved command.  The first argument
  bounds the depth of these calls: the result is \<open>None\<close> when the bound is reached.
\<close>

fun web_execute_command ::
  "nat \<Rightarrow> environment \<Rightarrow> web_terminal \<times> os_state \<Rightarrow> string
     \<Rightarrow> ((web_terminal \<times> os_state) \<times> response) option" where
  "web_execute_command 0 env s command_line = None"
| "web_execute_command (Suc depth) env s command_line =
     (if strip command_line = [] then Some (s, No_response)
      else
        (let t = (fst s)\<lparr>command_history := command_history (fst s) @ [command_line]\<rparr>;
             os = snd s
         in case builtin_command (t, os) (split command_line) of
              Some r \<Rightarrow> Some r
            | None \<Rightarrow>
                if looks_like_natural_language command_line then
                  (case parse_natural_language env t command_line of
                     (t', natural_cmd) \<Rightarrow>
                       if truthy natural_cmd then
                         web_execute_command depth env
                           (t'\<lparr>terminal_output :=
                                 terminal_output t' @ [Ai_interpreting (the natural_cmd)]\<rparr>, os)
                           (the natural_cmd)
                       else Some ((t', os), Dont_understand))
                else
                  (case execute_system_command env (current_directory t) os command_line of
                     (os', r) \<Rightarrow> Some ((t, os'), r))))"

text \<open>A session: the lines are executed one after the other on the same terminal.\<close>

fun web_run_lines ::
  "nat \<Rightarrow> environment \<Rightarrow> web_terminal \<times> os_state \<Rightarrow> string list
     \<Rightarrow> (web_terminal \<times> os_state) option" where
  "web_run_lines depth env s [] = Some s"
| "web_run_lines depth env s (l # ls) =
     (case web_execute_command depth env s l of
        None \<Rightarrow> None
      | Some (s', r) \<Rightarrow> web_run_lines depth env s' ls)"

definition history_of :: "(web_terminal \<times> os_state) option \<Rightarrow> string list" where
  "history_of r = (case r of None \<Rightarrow> [] | Some s \<Rightarrow> command_history (fst s))"

text \<open>A word: a string without white space, as \<^verbatim>\<open>split()\<close> returns them.\<close>

definition no_space :: "string \<Rightarrow> bool" where
  "no_space w = list_all (\<lambda>c. \<not> is_space c) w"


section \<open>Example states\<close>

definition example_os :: os_state where
  "example_os =
     \<lparr>files = [([''tmp''], Dir), ([''tmp'', ''w''], Dir),
               ([''tmp'', ''w'', ''f.txt''], File ''hi'')],
      cwd = [''tmp'']\<rparr>"

definition example_terminal :: python_terminal where
  "example_terminal = \<lparr>current_directory = ''/tmp'', prev_directory = None, running = True\<rparr>"

text \<open>A web terminal on the deterministic strategy, and a world whose service never answers.\<close>

definition example_web :: web_terminal where
  "example_web =
     \<lparr>current_directory = ''/tmp/w'', gemini_api_key = ''key'', ai_enabled = False,
      command_history = [], terminal_output = [], api_calls = 0\<rparr>"

definition example_env :: environment where
  "example_env =
     \<lparr>has_requests = True, service = (\<lambda>n command. Request_raises),
      shell = (\<lambda>command_line dir os. (os, Completed [] 0))\<rparr>"

text \<open>
  A web terminal on the remote strategy; a service whose first request times out and
  whose later requests answer \<^verbatim>\<open>ls\<close>; a service that answers every request with an
  error status; a service that always answers \<^verbatim>\<open>please\<close>.
\<close>

definition remote_web :: web_terminal where
  "remote_web = example_web\<lparr>ai_enabled := True\<rparr>"

definition raising_env :: environment where
  "raising_env =
     example_env\<lparr>service := (\<lambda>n command. if n = 0 then Request_raises
                                           else Http_200 (Some ''ls''))\<rparr>"

definition failing_env :: environment where
  "failing_env = example_env\<lparr>service := (\<lambda>n command. Http_failure)\<rparr>"

definition please_env :: environment where
  "please_env = example_env\<lparr>service := (\<lambda>n command. Http_200 (Some ''please''))\<rparr>"

text \<open>The sentence \<^verbatim>\<open>delete file ""\<close>, whose file name is a pair of quotes.\<close>

definition delete_quotes :: string where
  "delete_quotes = ''delete file '' @ [CHR 0x22, CHR 0x22]"

section \<open>The deterministic resolver on the documented examples\<close>

lemma resolve_delete_old: "parse_with_fallback_patterns ''delete old.txt'' = Some ''rm old.txt''"
  by code_simp

lemma resolve_how_many:
  "parse_with_fallback_patterns ''how many files are here'' = Some ''count''"
  by code_simp

lemma resolve_create_file:
  "parse_with_fallback_patterns ''create a file called test.py'' = Some ''touch test.py''"
  by code_simp

lemma resolve_make_folder:
  "parse_with_fallback_patterns ''make a folder named project'' = Some ''mkdir project''"
  by code_simp

lemma resolve_write:
  "parse_with_fallback_patterns ''write hello world to greeting.txt''
     = Some ''echo hello world > greeting.txt''"
  by code_simp

lemma resolve_show: "parse_with_fallback_patterns ''show me the files'' = Some ''ls''"
  by code_simp

text \<open>
  Claim C3.  The deterministic resolver maps the six documented sentences to
  \<^verbatim>\<open>rm old.txt\<close>, \<^verbatim>\<open>count\<close>, \<^verbatim>\<open>touch test.py\<close>, \<^verbatim>\<open>mkdir project\<close>,
  the redirect-write \<^verbatim>\<open>echo hello world > greeting.txt\<close> and \<^verbatim>\<open>ls\<close>.
\<close>

theorem fallback_literal_cases:
  "parse_with_fallback_patterns ''delete old.txt'' = Some ''rm old.txt''
   \<and> parse_with_fallback_patterns ''how many files are here'' = Some ''count''
   \<and> parse_with_fallback_patterns ''create a file called test.py'' = Some ''touch test.py''
   \<and> parse_with_fallback_patterns ''make a folder named project'' = Some ''mkdir project''
   \<and> parse_with_fallback_patterns ''write hello world to greeting.txt''
         = Some ''echo hello world > greeting.txt''
   \<and> parse_with_fallback_patterns ''show me the files'' = Some ''ls''"
  using resolve_delete_old resolve_how_many resolve_create_file resolve_make_folder
    resolve_write resolve_show
  by blast

section \<open>PythonTerminal: changing the directory\<close>

lemma components_no_slash: "c \<in> set (components s) \<Longrightarrow> CHR ''/'' \<notin> set c"
  by (induction s arbitrary: c) (auto split: if_splits list.splits)

lemma components_nonempty: "components s \<noteq> []"
  by (induction s) (auto split: list.splits)

lemma components_chars: "(\<Union>c \<in> set (components s). set c) = set s - {CHR ''/''}"
proof (induction s)
  case Nil
  then show ?case by simp
next
  case (Cons a s)
  then show ?case
    using components_nonempty [of s]
    by (cases "components s") (auto split: if_splits)
qed

lemma components_single: "CHR ''/'' \<notin> set x \<Longrightarrow> components x = [x]"
  by (induction x) auto

lemma components_append:
  "CHR ''/'' \<notin> set x \<Longrightarrow> components (x @ CHR ''/'' # s) = x # components s"
  by (induction x) auto

lemma components_join:
  "xs \<noteq> [] \<Longrightarrow> (\<And>x. x \<in> set xs \<Longrightarrow> CHR ''/'' \<notin> set x) \<Longrightarrow> components (join ''/'' xs) = xs"
proof (induction "''/''" xs rule: join.induct)
  case 1
  then show ?case by simp
next
  case (2 x)
  then show ?case by (simp add: components_single)
next
  case (3 x y ys)
  then show ?case using components_append [of x "join ''/'' (y # ys)"] by simp
qed

lemma join_chars: "set (join ''/'' xs) \<subseteq> (\<Union>x \<in> set xs. set x) \<union> {CHR ''/''}"
  by (induction "''/''" xs rule: join.induct) auto

lemma join_chars': "x \<in> set xs \<Longrightarrow> set x \<subseteq> set (join ''/'' xs)"
  by (induction "''/''" xs rule: join.induct) auto


lemma normpath_comps_plain:
  "''..'' \<notin> set cs \<Longrightarrow>
     normpath_comps b acc cs = acc @ filter (\<lambda>c. c \<noteq> [] \<and> c \<noteq> ''.'') cs"
  by (induction cs arbitrary: acc) auto

lemma walks_to_dir_start: "walks_to_dir fs st cs \<Longrightarrow> is_dir fs st"
  by (cases cs) (auto simp: walks_to_dir_def is_dir_def split: option.splits node.splits)

lemma walks_to_dir_Nil: "walks_to_dir fs st [] = is_dir fs st"
  by (simp add: walks_to_dir_def)

lemma walks_to_dir_Cons:
  "walks_to_dir fs st (c # cs) =
     (is_dir fs st \<and> walks_to_dir fs (if c = [] \<or> c = ''.'' then st
                                        else if c = ''..'' then butlast st else st @ [c]) cs)"
  by (auto simp: walks_to_dir_def is_dir_def split: option.splits node.splits)

lemma walks_to_dir_filter:
  "walks_to_dir fs st (filter (\<lambda>c. c \<noteq> [] \<and> c \<noteq> ''.'') cs) = walks_to_dir fs st cs"
proof (induction cs arbitrary: st)
  case Nil
  then show ?case by simp
next
  case (Cons c cs)
  show ?case
  proof (cases "c = [] \<or> c = ''.''")
    case True
    then have "walks_to_dir fs st (c # cs) = walks_to_dir fs st cs"
      using walks_to_dir_start [of fs st cs] by (auto simp: walks_to_dir_Cons)
    then show ?thesis using True Cons.IH [of st] by auto
  next
    case False
    then show ?thesis
      using Cons.IH by (simp add: walks_to_dir_Cons)
  qed
qed

lemma isdir_walks:
  "isdir os s \<longleftrightarrow> CHR 0x00 \<notin> set s \<and> s \<noteq> []
     \<and> walks_to_dir (files os) (if isabs s then [] else cwd os) (components s)"
  by (auto simp: isdir_def stat_def resolve_def walks_to_dir_def is_dir_def split: sum.splits)


lemma normpath_plain:
  assumes "isabs q" "no_dotdot q"
  shows "\<exists>pre. (pre = ''/'' \<or> pre = ''//'')
           \<and> normpath q = pre @ join ''/'' (filter (\<lambda>c. c \<noteq> [] \<and> c \<noteq> ''.'') (components q))"
proof -
  have q: "q \<noteq> []" "startswith q ''/''" using assms(1) by (auto simp: isabs_def)
  have "normpath_comps True [] (components q)
          = filter (\<lambda>c. c \<noteq> [] \<and> c \<noteq> ''.'') (components q)"
    using assms(2) normpath_comps_plain [of "components q" True "[]"] by (simp add: no_dotdot_def)
  then show ?thesis
    using q by (auto simp: normpath_def Let_def)
qed

lemma isdir_normpath:
  assumes "isabs q" "no_dotdot q"
  shows "isdir os (normpath q) = isdir os q"
proof -
  let ?keep = "\<lambda>c. c \<noteq> [] \<and> c \<noteq> ''.''"
  let ?nc = "filter ?keep (components q)"
  obtain pre where pre: "pre = ''/'' \<or> pre = ''//''" and n: "normpath q = pre @ join ''/'' ?nc"
    using normpath_plain [OF assms] by blast
  have abs: "isabs (normpath q)" and ne: "normpath q \<noteq> []"
    using pre n by (auto simp: isabs_def)
  have q: "q \<noteq> []" using assms(1) by (auto simp: isabs_def)
  have noslash: "\<And>x. x \<in> set ?nc \<Longrightarrow> CHR ''/'' \<notin> set x"
    using components_no_slash [of _ q] by simp
  have body: "components (join ''/'' ?nc) = (if ?nc = [] then [[]] else ?nc)"
    using components_join [of ?nc] noslash by auto
  have comps: "filter ?keep (components (normpath q)) = ?nc"
    using pre body by (auto simp: n)
  have nul: "CHR 0x00 \<in> set (normpath q) \<longleftrightarrow> CHR 0x00 \<in> set q"
  proof
    assume "CHR 0x00 \<in> set (normpath q)"
    then have "CHR 0x00 \<in> set (join ''/'' ?nc)" using pre by (auto simp: n)
    then obtain x where "x \<in> set ?nc" "CHR 0x00 \<in> set x" using join_chars [of ?nc] by auto
    then have "CHR 0x00 \<in> (\<Union>c \<in> set (components q). set c)" by auto
    then show "CHR 0x00 \<in> set q" unfolding components_chars by simp
  next
    assume "CHR 0x00 \<in> set q"
    then have "CHR 0x00 \<in> (\<Union>c \<in> set (components q). set c)"
      unfolding components_chars by simp
    then obtain x where x: "x \<in> set (components q)" "CHR 0x00 \<in> set x" by auto
    then have "x \<in> set ?nc" by auto
    then show "CHR 0x00 \<in> set (normpath q)"
      using join_chars' [of x ?nc] x(2) by (auto simp: n)
  qed
  have "walks_to_dir (files os) [] (components (normpath q))
          = walks_to_dir (files os) [] (components q)"
    using walks_to_dir_filter [of "files os" "[]" "components (normpath q)"]
      walks_to_dir_filter [of "files os" "[]" "components q"] comps
    by simp
  then show ?thesis
    using abs ne q nul assms(1) by (simp add: isdir_walks)
qed

lemma isabs_absolute: "isabs (absolute os p)"
  by (auto simp: absolute_def isabs_def path_join_def getcwd_def)

lemma isabs_normpath: "isabs q \<Longrightarrow> isabs (normpath q)"
  by (cases q) (auto simp: isabs_def normpath_def Let_def)

lemma isdir_exists: "isdir os s \<Longrightarrow> exists os s"
  by (simp add: isdir_def exists_def)

lemma isdir_absolute_cwd: "isabs s \<Longrightarrow> isdir (os\<lparr>cwd := c\<rparr>) s = isdir os s"
  by (simp add: isdir_def stat_def resolve_def split: sum.splits)


lemma cd_path_absolute: "isabs (cd_path home t os path)"
  by (simp add: cd_path_def abspath_def isabs_normpath isabs_absolute)

lemma cd_path_nope: "cd_path ''/home'' example_terminal example_os ''nope'' = ''/tmp/nope''"
  by code_simp

lemma not_exists_nope: "\<not> exists example_os ''/tmp/nope''"
  by code_simp

lemma cd_path_w: "cd_path ''/home'' example_terminal example_os ''w'' = ''/tmp/w''"
  by code_simp

lemma cd_w_changes:
  "fst (cmd_cd ''/home'' (example_terminal, example_os) ''w'') \<noteq> (example_terminal, example_os)"
  by code_simp

lemma not_dir_nope:
  "\<not> isdir example_os (absolute example_os (cd_target ''/home'' example_terminal ''nope''))"
  by code_simp

lemma no_dotdot_nope:
  "no_dotdot (absolute example_os (cd_target ''/home'' example_terminal ''nope''))"
  by code_simp

text \<open>
  Claim C1, as amended.  \<^verbatim>\<open>cmd_cd\<close> tests the normalised absolute path of its
  argument.  When that path does not exist or is not a directory, the terminal (current
  and previous directory) and the operating system are unchanged and the answer is
  "No such file or directory"; whenever \<^verbatim>\<open>cmd_cd\<close> changes anything, that path exists
  and is a directory, the previous directory recorded is the old current directory, and
  the new current directory is that path and is a directory afterwards.  For an
  argument that, made absolute, has no \<^verbatim>\<open>..\<close> component the test is a test of the
  argument itself: when it is not an existing directory, nothing changes and the answer
  is "No such file or directory".
\<close>

theorem cmd_cd_atomic:
  "(\<not> (exists os (cd_path home t os path) \<and> isdir os (cd_path home t os path)) \<longrightarrow>
      cmd_cd home (t, os) path = ((t, os), No_such_directory (cd_path home t os path)))
   \<and> (fst (cmd_cd home (t, os) path) \<noteq> (t, os) \<longrightarrow>
        exists os (cd_path home t os path) \<and> isdir os (cd_path home t os path)
        \<and> prev_directory (fst (fst (cmd_cd home (t, os) path))) = Some (current_directory t)
        \<and> current_directory (fst (fst (cmd_cd home (t, os) path))) = cd_path home t os path
        \<and> isdir (snd (fst (cmd_cd home (t, os) path)))
              (current_directory (fst (fst (cmd_cd home (t, os) path)))))
   \<and> (no_dotdot (absolute os (cd_target home t path))
        \<and> \<not> isdir os (absolute os (cd_target home t path)) \<longrightarrow>
        cmd_cd home (t, os) path = ((t, os), No_such_directory (cd_path home t os path)))"
proof (intro conjI impI)
  assume "\<not> (exists os (cd_path home t os path) \<and> isdir os (cd_path home t os path))"
  then show "cmd_cd home (t, os) path = ((t, os), No_such_directory (cd_path home t os path))"
    by (auto simp: cmd_cd_def Let_def)
next
  assume c: "fst (cmd_cd home (t, os) path) \<noteq> (t, os)"
  then show e: "exists os (cd_path home t os path)" and d: "isdir os (cd_path home t os path)"
    by (auto simp: cmd_cd_def Let_def split: if_splits)
  show "prev_directory (fst (fst (cmd_cd home (t, os) path))) = Some (current_directory t)"
    and "current_directory (fst (fst (cmd_cd home (t, os) path))) = cd_path home t os path"
    using e d by (auto simp: cmd_cd_def Let_def split: sum.splits)
  show "isdir (snd (fst (cmd_cd home (t, os) path)))
              (current_directory (fst (fst (cmd_cd home (t, os) path))))"
    using e d isdir_absolute_cwd [OF cd_path_absolute, of _ os home t os path]
    by (auto simp: cmd_cd_def Let_def chdir_def split: sum.splits option.splits node.splits)
next
  assume a: "no_dotdot (absolute os (cd_target home t path))
        \<and> \<not> isdir os (absolute os (cd_target home t path))"
  then have "\<not> isdir os (cd_path home t os path)"
    using isdir_normpath [OF isabs_absolute, of os "cd_target home t path" os]
    by (simp add: cd_path_def abspath_def)
  then show "cmd_cd home (t, os) path = ((t, os), No_such_directory (cd_path home t os path))"
    by (auto simp: cmd_cd_def Let_def)
qed

theorem cmd_cd_atomic_witness:
  "\<not> (exists example_os ''/tmp/nope'' \<and> isdir example_os ''/tmp/nope'')
   \<and> cmd_cd ''/home'' (example_terminal, example_os) ''nope''
       = ((example_terminal, example_os), No_such_directory ''/tmp/nope'')
   \<and> fst (cmd_cd ''/home'' (example_terminal, example_os) ''w'') \<noteq> (example_terminal, example_os)
   \<and> exists example_os ''/tmp/w'' \<and> isdir example_os ''/tmp/w''
   \<and> prev_directory (fst (fst (cmd_cd ''/home'' (example_terminal, example_os) ''w'')))
       = Some ''/tmp''
   \<and> no_dotdot (absolute example_os (cd_target ''/home'' example_terminal ''nope''))
   \<and> \<not> isdir example_os (absolute example_os (cd_target ''/home'' example_terminal ''nope''))"
  using cmd_cd_atomic [of example_os "''/home''" example_terminal "''nope''"]
        cmd_cd_atomic [of example_os "''/home''" example_terminal "''w''"]
        cd_path_nope not_exists_nope cd_path_w cd_w_changes not_dir_nope no_dotdot_nope
  by (simp add: example_terminal_def)

text \<open>
  The normalisation removes \<^verbatim>\<open>..\<close> together with the component before it without
  looking at the file system: \<^verbatim>\<open>nope/../w\<close> and \<^verbatim>\<open>w/f.txt/..\<close> name nothing that
  exists, and \<^verbatim>\<open>cmd_cd\<close> changes to \<^verbatim>\<open>/tmp/w\<close> all the same.
\<close>

theorem cd_accepts_missing_target:
  "\<not> exists example_os ''nope/../w''
   \<and> \<not> exists example_os (absolute example_os (cd_target ''/home'' example_terminal ''nope/../w''))
   \<and> cmd_cd ''/home'' (example_terminal, example_os) ''nope/../w''
       = ((example_terminal\<lparr>current_directory := ''/tmp/w'', prev_directory := Some ''/tmp''\<rparr>,
           example_os\<lparr>cwd := [''tmp'', ''w'']\<rparr>), Changed_to ''/tmp/w'')
   \<and> \<not> isdir example_os ''w/f.txt/..''
   \<and> cmd_cd ''/home'' (example_terminal, example_os) ''w/f.txt/..''
       = ((example_terminal\<lparr>current_directory := ''/tmp/w'', prev_directory := Some ''/tmp''\<rparr>,
           example_os\<lparr>cwd := [''tmp'', ''w'']\<rparr>), Changed_to ''/tmp/w'')"
  by code_simp

section \<open>The command history\<close>

lemma execute_command_history:
  assumes "strip line \<noteq> []" "length h \<le> 100"
  shows "fst (execute_command handlers (h, st) line) = drop (length (h @ [line]) - 100) (h @ [line])"
proof (cases "length h = 100")
  case True
  then show ?thesis using assms by (cases h) (auto simp: execute_command_def Let_def)
next
  case False
  with assms have "length h < 100" by simp
  then show ?thesis using assms by (simp add: execute_command_def Let_def)
qed

lemma execute_command_length:
  "length h \<le> 100 \<Longrightarrow> length (fst (execute_command handlers (h, st) line)) \<le> 100"
  by (auto simp: execute_command_def Let_def)

lemma run_lines_length:
  "length (fst s) \<le> 100 \<Longrightarrow> length (fst (run_lines handlers s lines)) \<le> 100"
proof (induction lines arbitrary: s)
  case Nil
  then show ?case by (simp add: run_lines_def)
next
  case (Cons l ls)
  obtain h st where s: "s = (h, st)" by (cases s)
  have "length (fst (execute_command handlers s l)) \<le> 100"
    using Cons.prems execute_command_length [of h handlers st l] by (simp add: s)
  from Cons.IH [OF this] show ?case by (simp add: run_lines_def)
qed

lemma run_lines_history:
  assumes "\<forall>l \<in> set lines. strip l \<noteq> []" "length h \<le> 100"
  shows "fst (run_lines handlers (h, st) lines) = drop (length (h @ lines) - 100) (h @ lines)"
  using assms
proof (induction lines arbitrary: h st)
  case Nil
  then show ?case by (simp add: run_lines_def)
next
  case (Cons l ls)
  let ?h' = "drop (length (h @ [l]) - 100) (h @ [l])"
  obtain st' where e: "execute_command handlers (h, st) l = (?h', st')"
    using execute_command_history [of l h handlers st] Cons.prems
    by (cases "execute_command handlers (h, st) l") auto
  have len: "length ?h' \<le> 100" by simp
  have "fst (run_lines handlers (h, st) (l # ls)) = fst (run_lines handlers (?h', st') ls)"
    by (simp add: run_lines_def e)
  also have "\<dots> = drop (length (?h' @ ls) - 100) (?h' @ ls)"
    using Cons.IH [OF _ len] Cons.prems by simp
  also have "\<dots> = drop (length (h @ l # ls) - 100) (h @ l # ls)"
  proof (cases "length h < 100")
    case True
    then show ?thesis by simp
  next
    case False
    with Cons.prems have "length h = 100" by simp
    then show ?thesis by (cases h) (simp_all add: drop_Cons')
  qed
  finally show ?case .
qed

text \<open>
  Claim C5, as amended.  The history of PythonTerminal never exceeds 100 entries and is
  evicted oldest first: from a history of at most 100 entries, any lines leave at most
  100 entries, and after 101 lines that are not blank the history is exactly the last
  100 of them, so the 101st line is present and the first line is gone (unless the same
  text was entered again later).
\<close>

theorem history_bounded_fifo:
  "length h \<le> 100 \<longrightarrow>
     length (fst (run_lines handlers (h, st) lines)) \<le> 100
     \<and> (length lines = 101 \<and> (\<forall>l \<in> set lines. strip l \<noteq> []) \<longrightarrow>
          fst (run_lines handlers (h, st) lines) = tl lines
          \<and> last lines \<in> set (fst (run_lines handlers (h, st) lines))
          \<and> (hd lines \<notin> set (tl lines) \<longrightarrow>
                hd lines \<notin> set (fst (run_lines handlers (h, st) lines))))"
proof (intro impI conjI)
  assume h: "length h \<le> 100"
  then show "length (fst (run_lines handlers (h, st) lines)) \<le> 100"
    using run_lines_length [of "(h, st)" handlers lines] by simp
  assume l: "length lines = 101 \<and> (\<forall>l \<in> set lines. strip l \<noteq> [])"
  then obtain x xs where lines: "lines = x # xs" by (cases lines) auto
  have eq: "fst (run_lines handlers (h, st) lines) = tl lines"
    using run_lines_history [of lines h handlers st] h l by (simp add: lines)
  then show "fst (run_lines handlers (h, st) lines) = tl lines" .
  have "xs \<noteq> []" using l by (auto simp: lines)
  then have "last lines \<in> set (tl lines)" by (simp add: lines)
  then show "last lines \<in> set (fst (run_lines handlers (h, st) lines))"
    unfolding eq .
  assume "hd lines \<notin> set (tl lines)"
  then show "hd lines \<notin> set (fst (run_lines handlers (h, st) lines))" by (simp add: eq)
qed

lemma strip_pwd: "strip ''pwd'' \<noteq> []" by code_simp
lemma strip_ls: "strip ''ls'' \<noteq> []" by code_simp

theorem history_bounded_fifo_witness:
  "length ([] :: string list) \<le> 100
   \<and> length (''pwd'' # replicate 100 ''ls'') = 101
   \<and> strip ''pwd'' \<noteq> [] \<and> strip ''ls'' \<noteq> []
   \<and> hd (''pwd'' # replicate 100 ''ls'') \<notin> set (tl (''pwd'' # replicate 100 ''ls''))
   \<and> fst (run_lines (\<lambda>l s. s) ([], ()) (''pwd'' # replicate 100 ''ls'')) = replicate 100 ''ls''
   \<and> ''pwd'' \<notin> set (fst (run_lines (\<lambda>l s. s) ([], ()) (''pwd'' # replicate 100 ''ls'')))"
  using history_bounded_fifo [of "[]" "\<lambda>l s. s" "()" "''pwd'' # replicate 100 ''ls''"]
        strip_pwd strip_ls
  by simp

lemma strip_help: "strip ''help'' = ''help''" by code_simp
lemma split_help: "split ''help'' = [''help'']" by code_simp
lemma strip_pwd': "strip ''pwd'' = ''pwd''" by code_simp
lemma split_pwd: "split ''pwd'' = [''pwd'']" by code_simp

lemma web_pwd:
  "web_execute_command (Suc d) env (t, os) ''pwd''
     = Some ((t\<lparr>command_history := command_history t @ [''pwd'']\<rparr>, os),
             Current_directory_is (current_directory t))"
  by (simp add: strip_pwd' split_pwd builtin_command_def Let_def)

lemma web_help:
  "web_execute_command (Suc d) env (t, os) ''help''
     = Some ((t\<lparr>command_history := command_history t @ [''help'']\<rparr>, os), Help_text)"
  by (simp add: strip_help split_help builtin_command_def Let_def)

lemma web_pwd_many:
  "history_of (web_run_lines (Suc d) env (t, os) (replicate n ''pwd''))
     = command_history t @ replicate n ''pwd''"
proof (induction n arbitrary: t)
  case 0
  then show ?case by (simp add: history_of_def)
next
  case (Suc n)
  show ?case
    using Suc.IH [of "t\<lparr>command_history := command_history t @ [''pwd'']\<rparr>"]
    by (simp add: web_pwd replicate_append_same del: web_execute_command.simps)
qed

text \<open>
  The history of WebTerminal is only appended to: after 101 commands it holds 101
  entries and the first command is still there, so claim C5 does not hold of it.
\<close>

theorem web_history_unbounded:
  "history_of (web_run_lines 1 example_env (example_web, example_os)
      (''help'' # replicate 100 ''pwd'')) = ''help'' # replicate 100 ''pwd''
   \<and> \<not> length (history_of (web_run_lines 1 example_env (example_web, example_os)
      (''help'' # replicate 100 ''pwd''))) \<le> 100
   \<and> ''help'' \<in> set (history_of (web_run_lines 1 example_env (example_web, example_os)
      (''help'' # replicate 100 ''pwd'')))"
proof -
  have "history_of (web_run_lines 1 example_env (example_web, example_os)
      (''help'' # replicate 100 ''pwd'')) = ''help'' # replicate 100 ''pwd''"
    using web_pwd_many [of 0 example_env
        "example_web\<lparr>command_history := command_history example_web @ [''help'']\<rparr>"
        example_os 100]
    by (simp add: web_help example_web_def del: web_execute_command.simps)
  then show ?thesis by simp
qed

section \<open>Removing files\<close>

lemma remove_keeps_dirs:
  "remove os s = Inr os' \<Longrightarrow> is_dir (files os) p \<Longrightarrow> is_dir (files os') p"
  by (auto simp: remove_def is_dir_def lookup_def AList.delete_conv'
           split: sum.splits option.splits node.splits if_splits)

lemma rm_one_keeps_dirs:
  "is_dir (files os) p \<Longrightarrow> is_dir (files (fst (rm_one os name))) p"
  by (auto simp: rm_one_def dest: remove_keeps_dirs split: sum.splits)

lemma rm_loop_keeps_dirs:
  "is_dir (files os) p \<Longrightarrow> is_dir (files (fst (rm_loop os args))) p"
proof (induction args arbitrary: os)
  case Nil
  then show ?case by simp
next
  case (Cons a as)
  from Cons.IH [OF rm_one_keeps_dirs [OF Cons.prems, of a]]
  show ?case by (auto split: prod.splits)
qed

lemma web_rm_one_keeps_dirs:
  "is_dir (files os) p \<Longrightarrow> is_dir (files (fst (web_rm_one dir os name))) p"
  by (auto simp: web_rm_one_def Let_def dest: remove_keeps_dirs split: sum.splits)

lemma for_each_rm_keeps_dirs:
  "is_dir (files os) p \<Longrightarrow> is_dir (files (fst (for_each (web_rm_one dir) os args))) p"
proof (induction args arbitrary: os)
  case Nil
  then show ?case by simp
next
  case (Cons a as)
  from Cons.IH [OF web_rm_one_keeps_dirs [OF Cons.prems, of dir a]]
  show ?case by (auto split: prod.splits)
qed

text \<open>
  Claim C9, as amended.  A name that is not a regular file (absent, or a directory) is
  never removed and leaves the operating system unchanged: PythonTerminal answers
  "No such file" in both cases, WebTerminal answers "File not found" for an absent name
  and "Cannot remove directory ... with rm" for a directory.  No call of either
  \<^verbatim>\<open>cmd_rm\<close>, on any arguments, removes a directory.
\<close>

theorem rm_never_removes_directory:
  "(\<not> isfile os name \<longrightarrow> rm_one os name = (os, Rm_no_such_file name))
   \<and> (\<not> isfile os (path_join dir name) \<longrightarrow>
        web_rm_one dir os name
          = (os, if isdir os (path_join dir name) then Cannot_remove_directory name
                 else File_not_found name))
   \<and> (is_dir (files os) p \<longrightarrow>
        is_dir (files (fst (cmd_rm os args))) p
        \<and> is_dir (files (fst (web_cmd_rm dir os args))) p)"
  using rm_loop_keeps_dirs [of os p args] for_each_rm_keeps_dirs [of os p dir args]
  by (auto simp: rm_one_def web_rm_one_def Let_def cmd_rm_def web_cmd_rm_def)

lemma w_not_file: "\<not> isfile example_os ''/tmp/w''" by code_simp
lemma w_isdir: "isdir example_os ''/tmp/w''" by code_simp
lemma join_w: "path_join ''/tmp'' ''w'' = ''/tmp/w''" by code_simp
lemma w_is_dir: "is_dir (files example_os) [''tmp'', ''w'']" by code_simp

theorem rm_never_removes_directory_witness:
  "\<not> isfile example_os ''/tmp/w''
   \<and> rm_one example_os ''/tmp/w'' = (example_os, Rm_no_such_file ''/tmp/w'')
   \<and> web_rm_one ''/tmp'' example_os ''w'' = (example_os, Cannot_remove_directory ''w'')
   \<and> is_dir (files example_os) [''tmp'', ''w'']
   \<and> is_dir (files (fst (cmd_rm example_os [''/tmp/w'', ''/tmp/w/f.txt'']))) [''tmp'', ''w'']
   \<and> is_dir (files (fst (web_cmd_rm ''/tmp'' example_os [''w'', ''w/f.txt'']))) [''tmp'', ''w'']"
  using rm_never_removes_directory [where os = example_os and name = "''/tmp/w''"
           and dir = "''/tmp''" and p = "[''tmp'', ''w'']"
           and args = "[''/tmp/w'', ''/tmp/w/f.txt'']"]
        rm_never_removes_directory [where os = example_os and name = "''w''"
           and dir = "''/tmp''" and p = "[''tmp'', ''w'']" and args = "[''w'', ''w/f.txt'']"]
        w_not_file w_isdir join_w w_is_dir
  by simp

text \<open>
  For a directory the answer of WebTerminal is not the not-found line, so claim C9 as
  it is worded does not hold of it.
\<close>

theorem web_rm_directory_not_notfound:
  "isdir example_os (path_join ''/tmp'' ''w'')
   \<and> web_rm_one ''/tmp'' example_os ''w'' = (example_os, Cannot_remove_directory ''w'')
   \<and> web_rm_one ''/tmp'' example_os ''w'' \<noteq> (example_os, File_not_found ''w'')"
  by code_simp

section \<open>Creating and removing directories\<close>

lemma lookup_nil: "lookup fs [] = Some Dir"
  by (simp add: lookup_def)

lemma lookup_update:
  "lookup (AList.update k v fs) p = (if p = [] then Some Dir else if p = k then Some v else lookup fs p)"
  by (simp add: lookup_def AList.update_conv')

lemma ensure_keeps:
  "lookup fs st = None \<Longrightarrow> lookup fs p = Some n \<Longrightarrow> lookup (AList.update st Dir fs) p = Some n"
  by (auto simp: lookup_update lookup_nil)

lemma makedirs_walk_keeps:
  "makedirs_walk fs st cs = (fs', r) \<Longrightarrow> lookup fs p = Some n \<Longrightarrow> lookup fs' p = Some n"
proof (induction cs arbitrary: fs st)
  case Nil
  then show ?case
    by (auto simp: ensure_keeps split: option.splits node.splits)
next
  case (Cons c cs)
  show ?case
  proof (cases "lookup fs st")
    case None
    then have "lookup (AList.update st Dir fs) p = Some n"
      using Cons.prems(2) by (rule ensure_keeps)
    then show ?thesis
      using Cons.prems(1) None Cons.IH [of "AList.update st Dir fs"]
      by (auto simp: Let_def split: if_splits)
  next
    case (Some a)
    then show ?thesis
      using Cons.prems Cons.IH [of fs]
      by (cases a) (auto simp: Let_def split: if_splits)
  qed
qed

lemma makedirs_walk_idem:
  "makedirs_walk fs st cs = (fs', None) \<Longrightarrow> makedirs_walk fs' st cs = (fs', None)"
proof (induction cs arbitrary: fs st)
  case Nil
  then show ?case
    by (auto simp: lookup_update lookup_nil split: option.splits node.splits if_splits)
next
  case (Cons c cs)
  show ?case
  proof (cases "lookup fs st")
    case None
    let ?fs1 = "AList.update st Dir fs"
    have d: "lookup ?fs1 st = Some Dir" by (simp add: lookup_update)
    have w: "makedirs_walk ?fs1 (if c = [] \<or> c = ''.'' then st else if c = ''..'' then butlast st else st @ [c]) cs = (fs', None)"
      using Cons.prems None by (auto simp: Let_def split: if_splits)
    have "lookup fs' st = Some Dir" using makedirs_walk_keeps [OF w d] .
    then show ?thesis using Cons.IH [OF w] by (auto simp: Let_def split: if_splits)
  next
    case (Some a)
    then obtain d: "lookup fs st = Some Dir" using Cons.prems by (cases a) auto
    have w: "makedirs_walk fs (if c = [] \<or> c = ''.'' then st else if c = ''..'' then butlast st else st @ [c]) cs = (fs', None)"
      using Cons.prems d by (auto simp: Let_def split: if_splits)
    have "lookup fs' st = Some Dir" using makedirs_walk_keeps [OF w d] .
    then show ?thesis using Cons.IH [OF w] by (auto simp: Let_def split: if_splits)
  qed
qed

lemma makedirs_idem:
  assumes "makedirs os s = (os', None)"
  shows "makedirs os' s = (os', None)"
proof -
  have s: "CHR 0x00 \<notin> set s" "s \<noteq> []" "isabs s \<or> is_dir (files os) (cwd os)"
    using assms by (auto simp: makedirs_def split: if_splits)
  let ?st = "if isabs s then [] else cwd os"
  obtain fs' where w: "makedirs_walk (files os) ?st (components s) = (fs', None)"
    and os': "os' = os\<lparr>files := fs'\<rparr>"
    using assms s by (auto simp: makedirs_def split: if_splits prod.splits)
  have "isabs s \<or> is_dir fs' (cwd os)"
    using s(3) makedirs_walk_keeps [OF w, of "cwd os" Dir] by (auto simp: is_dir_def)
  then show ?thesis
    using s(1,2) makedirs_walk_idem [OF w] by (auto simp: makedirs_def os')
qed

text \<open>
  Claim C8, as amended.  Creating a directory is idempotent: when \<^verbatim>\<open>mkdir\<close> of a
  name succeeds, a second \<^verbatim>\<open>mkdir\<close> of that name succeeds too and changes nothing.
  Removing a directory that is not empty answers "Directory not empty", which is not
  the answer for a missing directory, and changes nothing.
\<close>

theorem mkdir_idempotent_rmdir_not_empty:
  "(mkdir_one dir os name = (os', Directory_created name) \<longrightarrow>
      mkdir_one dir os' name = (os', Directory_created name)
      \<and> web_cmd_mkdir dir os' [name] = (os', [Directory_created name]))
   \<and> (isdir os (path_join dir name) \<and> listdir os (path_join dir name) = Inr items
        \<and> items \<noteq> [] \<longrightarrow>
        rmdir_one dir os name = (os, Directory_not_empty name)
        \<and> web_cmd_rmdir dir os [name] = (os, [Directory_not_empty name]))"
proof (intro conjI impI)
  assume "mkdir_one dir os name = (os', Directory_created name)"
  then have "makedirs os (path_join dir name) = (os', None)"
    by (auto simp: mkdir_one_def split: prod.splits option.splits)
  from makedirs_idem [OF this]
  show m: "mkdir_one dir os' name = (os', Directory_created name)"
    by (simp add: mkdir_one_def)
  then show "web_cmd_mkdir dir os' [name] = (os', [Directory_created name])"
    by (simp add: web_cmd_mkdir_def)
next
  assume a: "isdir os (path_join dir name) \<and> listdir os (path_join dir name) = Inr items
        \<and> items \<noteq> []"
  then show r: "rmdir_one dir os name = (os, Directory_not_empty name)"
    by (simp add: rmdir_one_def Let_def)
  then show "web_cmd_rmdir dir os [name] = (os, [Directory_not_empty name])"
    by (simp add: web_cmd_rmdir_def)
qed

lemma mkdir_x_created:
  "snd (mkdir_one ''/tmp/w'' example_os ''x'') = Directory_created ''x''"
  by code_simp

lemma w_is_directory: "isdir example_os (path_join ''/tmp'' ''w'')"
  by code_simp

lemma w_listing: "listdir example_os (path_join ''/tmp'' ''w'') = Inr [''f.txt'']"
  by code_simp

theorem mkdir_idempotent_rmdir_not_empty_witness:
  "mkdir_one ''/tmp/w'' example_os ''x''
     = (fst (mkdir_one ''/tmp/w'' example_os ''x''), Directory_created ''x'')
   \<and> mkdir_one ''/tmp/w'' (fst (mkdir_one ''/tmp/w'' example_os ''x'')) ''x''
     = (fst (mkdir_one ''/tmp/w'' example_os ''x''), Directory_created ''x'')
   \<and> isdir example_os (path_join ''/tmp'' ''w'')
   \<and> listdir example_os (path_join ''/tmp'' ''w'') = Inr [''f.txt'']
   \<and> rmdir_one ''/tmp'' example_os ''w'' = (example_os, Directory_not_empty ''w'')
   \<and> web_cmd_rmdir ''/tmp'' example_os [''w''] = (example_os, [Directory_not_empty ''w''])"
proof -
  have c: "mkdir_one ''/tmp/w'' example_os ''x''
     = (fst (mkdir_one ''/tmp/w'' example_os ''x''), Directory_created ''x'')"
    using mkdir_x_created by (cases "mkdir_one ''/tmp/w'' example_os ''x''") simp
  show ?thesis
    using c w_is_directory w_listing
      mkdir_idempotent_rmdir_not_empty [where dir = "''/tmp/w''" and os = example_os
        and name = "''x''" and os' = "fst (mkdir_one ''/tmp/w'' example_os ''x'')"]
      mkdir_idempotent_rmdir_not_empty [where dir = "''/tmp''" and os = example_os
        and name = "''w''" and items = "[''f.txt'']"]
    by simp
qed

text \<open>
  A name that exists as a regular file cannot be created as a directory: both calls
  answer with an error, so "for every name both calls succeed" does not hold.
\<close>

theorem mkdir_existing_file_fails_twice:
  "mkdir_one ''/tmp/w'' example_os ''f.txt''
     = (example_os, Error_creating_directory ''f.txt'' FileExistsError)
   \<and> mkdir_one ''/tmp/w'' (fst (mkdir_one ''/tmp/w'' example_os ''f.txt'')) ''f.txt''
     = (example_os, Error_creating_directory ''f.txt'' FileExistsError)"
  by code_simp

section \<open>Writing a file and reading it back\<close>

lemma walk_mono:
  "walk fs st cs = Inr q \<Longrightarrow> (\<And>k. lookup fs k = Some Dir \<Longrightarrow> lookup fs' k = Some Dir)
     \<Longrightarrow> walk fs' st cs = Inr q"
proof (induction cs arbitrary: st)
  case Nil
  then show ?case by simp
next
  case (Cons c cs)
  from Cons.prems(1) have d: "lookup fs st = Some Dir"
    by (auto split: option.splits node.splits)
  then have d': "lookup fs' st = Some Dir" by (rule Cons.prems(2))
  show ?case
    using Cons.prems(1) d d' Cons.IH [OF _ Cons.prems(2)]
    by (auto split: if_splits)
qed

lemma universal_newlines_id: "CHR 0x0D \<notin> set s \<Longrightarrow> universal_newlines s = s"
  by (induction s rule: universal_newlines.induct) auto

lemma creat_walk_walk: "creat_walk fs st cs = Inr p \<Longrightarrow> walk fs st cs = Inr p"
  by (auto simp: creat_walk_def split: if_splits sum.splits option.splits node.splits)

lemma resolve_creat_resolve: "resolve_creat os s = Inr p \<Longrightarrow> resolve os s = Inr p"
  by (auto simp: resolve_creat_def resolve_def dest: creat_walk_walk split: if_splits)

lemma read_after_write:
  assumes "write_file os s content = Inr os'"
  shows "read_file os' s = Inr (universal_newlines content)"
proof -
  obtain p where rc: "resolve_creat os s = Inr p" and nd: "lookup (files os) p \<noteq> Some Dir"
    and os': "os' = os\<lparr>files := AList.update p (File content) (files os)\<rparr>"
    using assms
    by (auto simp: write_file_def split: sum.splits option.splits node.splits)
  have r: "resolve os s = Inr p" using rc by (rule resolve_creat_resolve)
  have pne: "p \<noteq> []" using nd by (auto simp: lookup_nil)
  have keep: "\<And>k. lookup (files os) k = Some Dir \<Longrightarrow> lookup (files os') k = Some Dir"
    using nd by (auto simp: os' lookup_update)
  have "resolve os' s = Inr p"
    using r walk_mono [of "files os" _ "components s" p "files os'"] keep
    by (auto simp: resolve_def os' split: if_splits)
  moreover have "lookup (files os') p = Some (File content)"
    using pne by (simp add: os' lookup_update)
  ultimately show ?thesis by (simp add: read_file_def)
qed

text \<open>
  Claim C7.  When \<^verbatim>\<open>echo\<close> with the words \<open>ws\<close>, a \<^verbatim>\<open>>\<close> and a file name
  reports that the content was written, \<^verbatim>\<open>cat\<close> of that name returns exactly the
  words joined by single blanks.  The words of a command line hold no white space, so
  the content has no carriage return for the text-mode read to translate.
\<close>

theorem echo_cat_roundtrip:
  "''>'' \<notin> set ws \<and> CHR 0x0D \<notin> set (join '' '' ws)
   \<and> cmd_echo dir os (ws @ ''>'' # f # rest) = (os', Content_written f')
   \<longrightarrow> f' = f \<and> web_cmd_cat dir os' [f] = (os', [File_contents f (join '' '' ws)])"
proof (intro impI)
  assume a: "''>'' \<notin> set ws \<and> CHR 0x0D \<notin> set (join '' '' ws)
    \<and> cmd_echo dir os (ws @ ''>'' # f # rest) = (os', Content_written f')"
  then have "\<And>x. x \<in> set ws \<Longrightarrow> x \<noteq> ''>''" by blast
  then have tw: "takeWhile (\<lambda>a. a \<noteq> ''>'') (ws @ ''>'' # f # rest) = ws"
    by (induction ws) simp_all
  have "f' = f \<and> write_file os (path_join dir f) (join '' '' ws) = Inr os'"
    using a by (auto simp: cmd_echo_def Let_def tw nth_append split: if_splits sum.splits)
  then show "f' = f \<and> web_cmd_cat dir os' [f] = (os', [File_contents f (join '' '' ws)])"
    using read_after_write [of os "path_join dir f" "join '' '' ws" os'] a
    by (simp add: web_cmd_cat_def cat_one_def universal_newlines_id)
qed

lemma echo_hello_written:
  "snd (cmd_echo ''/tmp/w'' example_os [''hello'', ''world'', ''>'', ''greeting.txt''])
     = Content_written ''greeting.txt''"
  by code_simp

theorem echo_cat_roundtrip_witness:
  "''>'' \<notin> set [''hello'', ''world'']
   \<and> CHR 0x0D \<notin> set (join '' '' [''hello'', ''world''])
   \<and> cmd_echo ''/tmp/w'' example_os [''hello'', ''world'', ''>'', ''greeting.txt'']
       = (fst (cmd_echo ''/tmp/w'' example_os [''hello'', ''world'', ''>'', ''greeting.txt'']),
          Content_written ''greeting.txt'')
   \<and> web_cmd_cat ''/tmp/w''
        (fst (cmd_echo ''/tmp/w'' example_os [''hello'', ''world'', ''>'', ''greeting.txt'']))
        [''greeting.txt'']
       = (fst (cmd_echo ''/tmp/w'' example_os [''hello'', ''world'', ''>'', ''greeting.txt'']),
          [File_contents ''greeting.txt'' ''hello world''])"
proof -
  let ?e = "cmd_echo ''/tmp/w'' example_os [''hello'', ''world'', ''>'', ''greeting.txt'']"
  have c: "?e = (fst ?e, Content_written ''greeting.txt'')"
    using echo_hello_written by (cases ?e) simp
  show ?thesis
    using c echo_cat_roundtrip [where ws = "[''hello'', ''world'']" and dir = "''/tmp/w''"
        and os = example_os and f = "''greeting.txt''" and rest = "[]"
        and os' = "fst ?e" and f' = "''greeting.txt''"]
    by simp
qed

section \<open>The deterministic strategy stays\<close>

lemma builtin_command_keeps:
  assumes "builtin_command (t, os) args = Some ((t', os'), r)"
  shows "ai_enabled t' = ai_enabled t \<and> api_calls t' = api_calls t
         \<and> command_history t' = command_history t \<and> gemini_api_key t' = gemini_api_key t"
  using assms
  by (auto simp: builtin_command_def Let_def split: if_splits prod.splits)

lemma deterministic_is_sticky:
  "web_execute_command depth env s line = Some (s', r) \<Longrightarrow> \<not> ai_enabled (fst s)
     \<Longrightarrow> \<not> ai_enabled (fst s') \<and> api_calls (fst s') = api_calls (fst s)"
proof (induction depth arbitrary: s line)
  case 0
  then show ?case by simp
next
  case (Suc depth)
  obtain t os where s: "s = (t, os)" by (cases s)
  let ?t = "t\<lparr>command_history := command_history t @ [line]\<rparr>"
  show ?case
  proof (cases "strip line = []")
    case True
    then show ?thesis using Suc.prems by simp
  next
    case nb: False
    show ?thesis
    proof (cases "builtin_command (?t, os) (split line)")
      case (Some b)
      then have "b = (s', r)" using Suc.prems(1) nb by (simp add: s Let_def)
      then show ?thesis
        using builtin_command_keeps [of ?t os "split line" "fst s'" "snd s'" r] Some Suc.prems(2)
        by (simp add: s)
    next
      case None
      show ?thesis
      proof (cases "looks_like_natural_language line")
        case True
        have p: "parse_natural_language env ?t line = (?t, parse_with_fallback_patterns line)"
          using Suc.prems(2) by (simp add: parse_natural_language_def s)
        show ?thesis
        proof (cases "truthy (parse_with_fallback_patterns line)")
          case t: True
          let ?t2 = "?t\<lparr>terminal_output := terminal_output ?t
                       @ [Ai_interpreting (the (parse_with_fallback_patterns line))]\<rparr>"
          have "web_execute_command depth env (?t2, os) (the (parse_with_fallback_patterns line))
                  = Some (s', r)"
            using Suc.prems(1) nb None True p t by (simp add: s Let_def)
          from Suc.IH [OF this] Suc.prems(2) show ?thesis by (simp add: s)
        next
          case False
          then show ?thesis using Suc.prems nb None True p by (auto simp: s Let_def)
        qed
      next
        case False
        then show ?thesis
          using Suc.prems nb None by (auto simp: s Let_def split: prod.splits)
      qed
    qed
  qed
qed

lemma run_lines_sticky:
  "web_run_lines depth env s lines = Some s' \<Longrightarrow> \<not> ai_enabled (fst s)
     \<Longrightarrow> \<not> ai_enabled (fst s') \<and> api_calls (fst s') = api_calls (fst s)"
proof (induction lines arbitrary: s)
  case Nil
  then show ?case by simp
next
  case (Cons l ls)
  then obtain s1 r where e: "web_execute_command depth env s l = Some (s1, r)"
    and w: "web_run_lines depth env s1 ls = Some s'"
    by (auto split: option.splits)
  from deterministic_is_sticky [OF e Cons.prems(2)] Cons.IH [OF w]
  show ?case by simp
qed

lemma example_web_deterministic: "\<not> ai_enabled example_web"
  by code_simp

section \<open>The commands that the deterministic resolver returns\<close>

lemma no_space_Nil: "no_space []"
  by (simp add: no_space_def)

lemma no_space_append: "no_space (a @ b) \<longleftrightarrow> no_space a \<and> no_space b"
  by (simp add: no_space_def)

lemma no_space_Cons: "no_space (c # w) \<longleftrightarrow> \<not> is_space c \<and> no_space w"
  by (simp add: no_space_def)

lemma split_acc_word: "no_space w \<Longrightarrow> split_acc cur (w @ s) = split_acc (cur @ w) s"
  by (induction w arbitrary: cur) (simp_all add: no_space_Cons)

lemma split_acc_tokens:
  "no_space cur \<Longrightarrow> w \<in> set (split_acc cur s) \<Longrightarrow> w \<noteq> [] \<and> no_space w"
proof (induction s arbitrary: cur)
  case Nil
  then show ?case by (auto split: if_splits)
next
  case (Cons c s)
  show ?case
  proof (cases "is_space c")
    case True
    then show ?thesis
      using Cons.prems Cons.IH [of "[]"] by (auto simp: no_space_Nil split: if_splits)
  next
    case False
    then show ?thesis
      using Cons.prems Cons.IH [of "cur @ [c]"] by (auto simp: no_space_append no_space_Cons no_space_Nil)
  qed
qed

lemma split_tokens: "w \<in> set (split s) \<Longrightarrow> w \<noteq> [] \<and> no_space w"
  using split_acc_tokens [of "[]" w s] by (simp add: split_def no_space_Nil)

lemma is_space_blank: "is_space CHR '' ''"
  by (simp add: is_space_def)

lemma split_word_blank:
  "no_space w \<Longrightarrow> w \<noteq> [] \<Longrightarrow> split (w @ CHR '' '' # rest) = w # split rest"
  by (simp add: split_def split_acc_word is_space_blank)

lemma split_word: "no_space w \<Longrightarrow> split w = (if w = [] then [] else [w])"
  using split_acc_word [of w "[]" "[]"] by (simp add: split_def)

lemma strip_chars_subset: "set (strip_chars cs s) \<subseteq> set s"
proof -
  have "set (strip_chars cs s) \<subseteq> set (dropWhile (\<lambda>c. c \<in> set cs) s)"
    unfolding strip_chars_def using set_dropWhileD by fastforce
  also have "\<dots> \<subseteq> set s" using set_dropWhileD by fastforce
  finally show ?thesis .
qed

lemma no_space_strip_quotes: "no_space w \<Longrightarrow> no_space (strip_quotes w)"
  using strip_chars_subset [of quotes w]
  by (auto simp: no_space_def strip_quotes_def list_all_iff)


lemma nth_token: "i < length (split s) \<Longrightarrow> no_space (split s ! i) \<and> split s ! i \<noteq> []"
  using split_tokens [of "split s ! i" s] by simp

lemma rmdir_target_word:
  "rmdir_target ws ow i = Some t \<Longrightarrow> \<exists>w \<in> set ow. t = strip_quotes w"
  by (induction ws arbitrary: i) (auto simp: Let_def split: if_splits)

lemma rm_keyword_target_word:
  "rm_keyword_target ws ow i = Some t \<Longrightarrow> \<exists>w \<in> set ow. t = strip_quotes w"
  by (induction ws arbitrary: i) (auto simp: Let_def split: if_splits)

lemma rm_verb_target_word:
  "rm_verb_target ws ow i = Some t \<Longrightarrow> \<exists>w \<in> set ow. t = strip_quotes w"
  by (induction ws arbitrary: i) (auto simp: Let_def split: if_splits)

lemma touch_target_word:
  "touch_target ws ow i = Some t \<Longrightarrow> \<exists>w \<in> set ow. t = strip_quotes w"
  by (induction ws arbitrary: i) (auto simp: Let_def split: if_splits)

lemma mkdir_target_word:
  "mkdir_target ws ow i = Some t \<Longrightarrow> \<exists>w \<in> set ow. t = strip_quotes w"
  by (induction ws arbitrary: i) (auto simp: Let_def split: if_splits)

lemma write_target_word:
  "write_target ws ow i = Some t \<Longrightarrow> \<exists>w \<in> set ow. t = strip_quotes w"
  by (induction ws arbitrary: i) (auto simp: Let_def split: if_splits)

lemma find_in_set: "List.find P xs = Some x \<Longrightarrow> x \<in> set xs"
  by (induction xs) (auto split: if_splits)

lemma first_filename_like_word:
  "first_filename_like ow = Some t \<Longrightarrow> \<exists>w \<in> set ow. t = strip_quotes w"
  by (auto simp: first_filename_like_def dest: find_in_set)

lemma stripped_token:
  "\<exists>w \<in> set (split s). t = strip_quotes w \<Longrightarrow> no_space t"
  using split_tokens no_space_strip_quotes by blast

lemma no_space_add_extension: "no_space t \<Longrightarrow> no_space (add_extension l t)"
  by (auto simp: add_extension_def no_space_def is_space_def)

lemma add_extension_nonempty: "t \<noteq> [] \<Longrightarrow> add_extension l t \<noteq> []"
  by (auto simp: add_extension_def)

lemma two_word_rule_shape:
  assumes "two_word_rule (split s) = Some r"
  shows "\<exists>t. no_space t \<and> t \<noteq> []
           \<and> (r = ''rm '' @ t \<or> r = ''touch '' @ t \<or> r = ''mkdir '' @ t \<or> r = ''rmdir '' @ t)"
proof -
  from assms have l: "length (split s) = 2"
    by (auto simp: two_word_rule_def split: if_splits)
  then have "no_space (split s ! 1) \<and> split s ! 1 \<noteq> []"
    using nth_token [of 1 s] by simp
  then show ?thesis
    using assms l by (auto simp: two_word_rule_def Let_def split: if_splits)
qed

lemma deletion_rule_shape:
  "\<exists>t. no_space t \<and> (deletion_rule l (split s) = ''rm '' @ t
                    \<or> deletion_rule l (split s) = ''rmdir '' @ t)"
proof -
  have temp: "no_space ''temp''" "no_space ''temp.txt''"
    by (simp_all add: no_space_def is_space_def)
  have find: "\<And>P w. List.find P (split s) = Some w \<Longrightarrow> no_space (strip_quotes w)"
    using split_tokens no_space_strip_quotes find_in_set by metis
  show ?thesis
    unfolding deletion_rule_def
    using temp find
      stripped_token [OF rmdir_target_word, of _ s]
      stripped_token [OF rm_keyword_target_word, of _ s]
      stripped_token [OF rm_verb_target_word, of _ s]
    by (auto split: option.splits)
qed

lemma truthy_word:
  "truthy x \<Longrightarrow> (\<And>t. x = Some t \<Longrightarrow> \<exists>w \<in> set (split s). t = strip_quotes w)
     \<Longrightarrow> no_space (the x) \<and> the x \<noteq> []"
  using stripped_token [of s] by (cases x) auto

lemma creation_rule_shape:
  assumes "creation_rule l (split s) = Some r"
  shows "\<exists>t. no_space t \<and> t \<noteq> [] \<and> (r = ''touch '' @ t \<or> r = ''mkdir '' @ t)"
proof -
  have defaults: "no_space ''newfile.txt''" "no_space ''newfolder''"
    by (simp_all add: no_space_def is_space_def)
  let ?f1 = "touch_target (split l) (split s) 0"
  let ?f = "if \<not> truthy ?f1 then first_filename_like (split s) else ?f1"
  let ?d = "mkdir_target (split l) (split s) 0"
  have f: "truthy ?f \<Longrightarrow> no_space (the ?f) \<and> the ?f \<noteq> []"
    by (rule truthy_word) (auto dest: touch_target_word first_filename_like_word split: if_splits)
  have d: "truthy ?d \<Longrightarrow> no_space (the ?d) \<and> the ?d \<noteq> []"
    by (rule truthy_word) (auto dest: mkdir_target_word)
  show ?thesis
  proof (cases "contains l ''file''")
    case True
    show ?thesis
    proof (cases "truthy ?f")
      case t: True
      then have "r = ''touch '' @ add_extension l (the ?f)"
        using assms True by (simp add: creation_rule_def Let_def)
      then show ?thesis
        using f [OF t] no_space_add_extension add_extension_nonempty by blast
    next
      case False
      then have "r = ''touch newfile.txt''"
        using assms True by (simp add: creation_rule_def Let_def)
      then show ?thesis using defaults by auto
    qed
  next
    case False
    show ?thesis
    proof (cases "truthy ?d")
      case t: True
      then have "r = ''mkdir '' @ the ?d"
        using assms False by (simp add: creation_rule_def Let_def split: if_splits)
      then show ?thesis using d [OF t] by blast
    next
      case nt: False
      then have "r = ''mkdir newfolder''"
        using assms False by (simp add: creation_rule_def Let_def split: if_splits)
      then show ?thesis using defaults by auto
    qed
  qed
qed

lemma write_rule_shape:
  assumes "write_rule (split s) = Some r"
  shows "(\<exists>x. r = ''echo '' @ x) \<or> (\<exists>t. no_space t \<and> t \<noteq> [] \<and> r = ''touch '' @ t)"
proof -
  let ?f1 = "write_target (split s) (split s) 0"
  let ?f = "if \<not> truthy ?f1 then first_filename_like (split s) else ?f1"
  have t: "truthy ?f" using assms by (auto simp: write_rule_def Let_def split: if_splits)
  have "no_space (the ?f) \<and> the ?f \<noteq> []"
    by (rule truthy_word [OF t])
       (auto dest: write_target_word first_filename_like_word split: if_splits)
  then show ?thesis
    using assms t by (auto simp: write_rule_def Let_def split: if_splits)
qed

lemma listing_rule_shape: "listing_rule l = Some r \<Longrightarrow> r = ''ls''"
  by (auto simp: listing_rule_def split: if_splits)

lemma fallback_shape:
  assumes "parse_with_fallback_patterns s = Some r"
  shows "r = ''count'' \<or> r = ''ls'' \<or> (\<exists>x. r = ''echo '' @ x)
         \<or> (\<exists>t. no_space t \<and> (r = ''rm '' @ t \<or> r = ''rmdir '' @ t
                \<or> (t \<noteq> [] \<and> (r = ''touch '' @ t \<or> r = ''mkdir '' @ t))))"
proof (cases "two_word_rule (split s)")
  case (Some a)
  then have "r = a" using assms by (simp add: parse_with_fallback_patterns_def Let_def)
  then show ?thesis using two_word_rule_shape [of s r] Some by blast
next
  case None
  define l where "l = strip (lower s)"
  define counting where
    "counting = contains_any l [''count'', ''how many'', ''number of files'', ''files count'']"
  define deleting where "deleting = contains_any l [''delete'', ''remove'', ''del'']"
  define creating where
    "creating = (if contains l ''create'' \<or> contains l ''make''
                 then creation_rule l (split s) else None)"
  define writing where
    "writing = (if contains l ''write'' \<and> (contains l ''to'' \<or> contains l ''in'')
                then write_rule (split s) else None)"
  have p: "Some r =
     (if counting then Some ''count''
      else if deleting then Some (deletion_rule l (split s))
      else (case creating of Some r \<Rightarrow> Some r
            | None \<Rightarrow> (case writing of Some r \<Rightarrow> Some r | None \<Rightarrow> listing_rule l)))"
    unfolding assms [symmetric] parse_with_fallback_patterns_def Let_def None
      l_def counting_def deleting_def creating_def writing_def
    by simp
  show ?thesis
  proof (cases counting)
    case True
    then show ?thesis using p by simp
  next
    case nc: False
    show ?thesis
    proof (cases deleting)
      case True
      then have "r = deletion_rule l (split s)" using p nc by simp
      then show ?thesis using deletion_rule_shape [of l s] by metis
    next
      case nd: False
      show ?thesis
      proof (cases creating)
        case (Some a)
        then have "creating = Some r" using p nc nd by simp
        then have "creation_rule l (split s) = Some r"
          by (simp add: creating_def split: if_splits)
        from creation_rule_shape [OF this] show ?thesis by blast
      next
        case ncr: None
        show ?thesis
        proof (cases writing)
          case (Some a)
          then have "writing = Some r" using p nc nd ncr by simp
          then have "write_rule (split s) = Some r"
            by (simp add: writing_def split: if_splits)
          from write_rule_shape [OF this] show ?thesis by blast
        next
          case None
          then have "listing_rule l = Some r" using p nc nd ncr by simp
          from listing_rule_shape [OF this] show ?thesis by simp
        qed
      qed
    qed
  qed
qed

section \<open>Dispatch of a resolved command\<close>

lemma lines_not_None:
  "(case r of (os', ls) \<Rightarrow> Some ((t, os'), Lines ls)) \<noteq> None"
  by (cases r) simp

lemma builtin_count: "builtin_command (t, os) (split ''count'') \<noteq> None"
  by (simp add: split_word no_space_def is_space_def builtin_command_def Let_def)

lemma builtin_ls: "builtin_command (t, os) (split ''ls'') \<noteq> None"
  by (simp add: split_word no_space_def is_space_def builtin_command_def Let_def)

lemma split_prefixed:
  "no_space c \<Longrightarrow> c \<noteq> [] \<Longrightarrow> no_space t
     \<Longrightarrow> split (c @ CHR '' '' # t) = (if t = [] then [c] else [c, t])"
  by (simp add: split_word_blank split_word)

lemma builtin_echo: "builtin_command (t, os) (split (''echo '' @ x)) \<noteq> None"
proof -
  have "split (''echo '' @ x) = ''echo'' # split x"
    using split_word_blank [of "''echo''" x] by (simp add: no_space_def is_space_def)
  then show ?thesis
    by (simp add: builtin_command_def Let_def split: prod.splits)
qed

lemma builtin_with_target:
  assumes "no_space w" "w \<noteq> []" "c \<in> set [''rm'', ''rmdir'', ''touch'', ''mkdir'']"
  shows "builtin_command (t, os) (split (c @ CHR '' '' # w)) \<noteq> None"
proof -
  have c: "no_space c" "c \<noteq> []" using assms(3) by (auto simp: no_space_def is_space_def)
  have "split (c @ CHR '' '' # w) = [c, w]"
    using split_prefixed [OF c assms(1)] assms(2) by simp
  then show ?thesis
    using assms(3) by (auto simp: builtin_command_def Let_def split: prod.splits)
qed

lemma rm_alone_not_natural: "\<not> looks_like_natural_language ''rm ''"
  by code_simp

lemma rmdir_alone_not_natural: "\<not> looks_like_natural_language ''rmdir ''"
  by code_simp

lemma resolved_not_reclassified:
  assumes "parse_with_fallback_patterns s = Some r"
  shows "builtin_command (t, os) (split r) \<noteq> None \<or> \<not> looks_like_natural_language r"
proof -
  from fallback_shape [OF assms]
  consider "r = ''count''" | "r = ''ls''" | x where "r = ''echo '' @ x"
    | w where "no_space w" "r = ''rm '' @ w \<or> r = ''rmdir '' @ w"
    | w where "no_space w" "w \<noteq> []" "r = ''touch '' @ w \<or> r = ''mkdir '' @ w"
    by blast
  then show ?thesis
  proof cases
    case 1
    then show ?thesis using builtin_count by simp
  next
    case 2
    then show ?thesis using builtin_ls by simp
  next
    case 3
    then show ?thesis using builtin_echo by simp
  next
    case 4
    show ?thesis
    proof (cases "w = []")
      case True
      then show ?thesis using 4 rm_alone_not_natural rmdir_alone_not_natural by auto
    next
      case False
      then show ?thesis
        using 4 builtin_with_target [of w "''rm''" t os] builtin_with_target [of w "''rmdir''" t os]
        by auto
    qed
  next
    case 5
    then show ?thesis
      using builtin_with_target [of w "''touch''" t os] builtin_with_target [of w "''mkdir''" t os]
      by auto
  qed
qed

lemma returns_without_resolution:
  assumes "\<And>t. builtin_command (t, snd s) (split r) \<noteq> None \<or> \<not> looks_like_natural_language r"
  shows "web_execute_command (Suc depth) env s r \<noteq> None"
proof -
  obtain t os where s: "s = (t, os)" by (cases s)
  let ?t = "t\<lparr>command_history := command_history t @ [r]\<rparr>"
  show ?thesis
  proof (cases "builtin_command (?t, os) (split r)")
    case None
    then have "\<not> looks_like_natural_language r" using assms [of ?t] by (simp add: s)
    then show ?thesis using None by (simp add: s Let_def split: prod.splits)
  next
    case (Some a)
    then show ?thesis by (cases a) (auto simp: s Let_def)
  qed
qed

lemma deterministic_returns:
  assumes "\<not> ai_enabled (fst s)"
  shows "web_execute_command (Suc (Suc depth)) env s line \<noteq> None"
proof -
  obtain t os where s: "s = (t, os)" by (cases s)
  let ?t = "t\<lparr>command_history := command_history t @ [line]\<rparr>"
  have p: "parse_natural_language env ?t line = (?t, parse_with_fallback_patterns line)"
    using assms by (simp add: parse_natural_language_def s)
  show ?thesis
  proof (cases "truthy (parse_with_fallback_patterns line)")
    case True
    then obtain r where r: "parse_with_fallback_patterns line = Some r"
      by (cases "parse_with_fallback_patterns line") auto
    let ?t2 = "?t\<lparr>terminal_output := terminal_output ?t @ [Ai_interpreting r]\<rparr>"
    have "web_execute_command (Suc depth) env (?t2, os) r \<noteq> None"
      by (rule returns_without_resolution) (use resolved_not_reclassified [OF r] in simp)
    then show ?thesis
      using p r True
      by (subst web_execute_command.simps(2))
         (auto simp: s Let_def simp del: web_execute_command.simps split: option.splits prod.splits)
  next
    case False
    then show ?thesis
      using p
      by (subst web_execute_command.simps(2))
         (auto simp: s Let_def simp del: web_execute_command.simps split: option.splits prod.splits)
  qed
qed

text \<open>
  Claim C2, as amended.  On the deterministic strategy a line is dispatched with at
  most one call of \<^verbatim>\<open>execute_command\<close> on itself: depth two is always enough.  The
  command that the resolver returns is either accepted by a built-in command or is not
  classified as natural language, so it is never resolved a second time, also when it
  is not recognised.
\<close>

theorem deterministic_dispatch_once:
  "\<not> ai_enabled (fst s) \<longrightarrow>
     web_execute_command (Suc (Suc depth)) env s line \<noteq> None
     \<and> (parse_with_fallback_patterns line = Some r \<longrightarrow>
          builtin_command (t, os) (split r) \<noteq> None \<or> \<not> looks_like_natural_language r)"
  using deterministic_returns [of s depth env line] resolved_not_reclassified [of line r t os]
  by blast

lemma delete_quotes_resolved: "parse_with_fallback_patterns delete_quotes = Some ''rm ''"
  by code_simp

lemma rm_alone_rejected: "builtin_command (example_web, example_os) (split ''rm '') = None"
  by code_simp

theorem deterministic_dispatch_once_witness:
  "\<not> ai_enabled example_web
   \<and> parse_with_fallback_patterns delete_quotes = Some ''rm ''
   \<and> web_execute_command (Suc (Suc 0)) example_env (example_web, example_os) delete_quotes
       \<noteq> None
   \<and> builtin_command (example_web, example_os) (split ''rm '') = None
   \<and> \<not> looks_like_natural_language ''rm ''"
  using deterministic_dispatch_once [where s = "(example_web, example_os)" and depth = 0
      and env = example_env and line = delete_quotes and r = "''rm ''" and t = example_web
      and os = example_os]
    delete_quotes_resolved rm_alone_rejected example_web_deterministic
  by simp

lemma please_step:
  assumes "ai_enabled t" "gemini_api_key t \<noteq> []"
  shows "web_execute_command (Suc depth) please_env (t, os) ''please''
     = web_execute_command depth please_env
         (t\<lparr>command_history := command_history t @ [''please''],
            api_calls := api_calls t + 1,
            terminal_output := terminal_output t @ [Ai_interpreting ''please'']\<rparr>, os)
         ''please''"
proof -
  have e: "strip ''please'' = ''please''" "split ''please'' = [''please'']"
    "looks_like_natural_language ''please''" "has_requests please_env"
    "\<And>n c. service please_env n c = Http_200 (Some ''please'')"
    by code_simp+
  have b: "\<And>t. builtin_command (t, os) [''please''] = None"
    by (simp add: builtin_command_def Let_def)
  show ?thesis
    using assms
    by (subst web_execute_command.simps(2))
       (simp add: e b Let_def parse_natural_language_def parse_with_gemini_def
          call_gemini_api_def del: web_execute_command.simps)
qed

lemma remote_resolution_diverges:
  "ai_enabled t \<Longrightarrow> gemini_api_key t \<noteq> []
     \<Longrightarrow> web_execute_command depth please_env (t, os) ''please'' = None"
proof (induction depth arbitrary: t)
  case 0
  then show ?case by simp
next
  case (Suc depth)
  show ?case
    unfolding please_step [OF Suc.prems]
    by (rule Suc.IH) (use Suc.prems in simp_all)
qed

text \<open>
  On the remote strategy the answer of the service goes through the whole of
  \<^verbatim>\<open>execute_command\<close> again, classification included: the answer \<^verbatim>\<open>please\<close> is no
  built-in command and is classified as natural language, so it is resolved again, and
  with a service that keeps answering \<^verbatim>\<open>please\<close> no depth is enough.  (Python ends
  this recursion with a RecursionError.)
\<close>

theorem remote_answer_reclassified:
  "snd (parse_natural_language please_env remote_web ''please help'') = Some ''please''
   \<and> builtin_command (remote_web, example_os) (split ''please'') = None
   \<and> looks_like_natural_language ''please''
   \<and> web_execute_command 10 please_env (remote_web, example_os) ''please help'' = None"
  by code_simp

section \<open>Built-in commands and the classifier\<close>
























section \<open>The target of a resolved command\<close>

lemma hd_split_prefixed:
  assumes "c \<in> set [''rm'', ''rmdir'', ''touch'', ''mkdir'']" "no_space w"
  shows "hd (split (c @ CHR '' '' # w)) = c"
proof -
  have "no_space c" "c \<noteq> []" using assms(1) by (auto simp: no_space_def is_space_def)
  from split_prefixed [OF this assms(2)] show ?thesis by simp
qed

lemma fallback_first_token:
  assumes "parse_with_fallback_patterns s = Some r"
  shows "hd (split r) \<in> set [''rm'', ''touch'', ''mkdir'', ''rmdir'', ''count'', ''ls'', ''echo'']"
proof -
  from fallback_shape [OF assms]
  consider "r = ''count''" | "r = ''ls''" | x where "r = ''echo '' @ x"
    | w where "no_space w" "r = ''rm '' @ w \<or> r = ''rmdir '' @ w
        \<or> r = ''touch '' @ w \<or> r = ''mkdir '' @ w"
    by blast
  then show ?thesis
  proof cases
    case 1
    then show ?thesis by (simp add: split_word no_space_def is_space_def)
  next
    case 2
    then show ?thesis by (simp add: split_word no_space_def is_space_def)
  next
    case 3
    have "split (''echo '' @ x) = ''echo'' # split x"
      using split_word_blank [of "''echo''" x] by (simp add: no_space_def is_space_def)
    then show ?thesis using 3 by simp
  next
    case 4
    then show ?thesis
      using hd_split_prefixed [of "''rm''" w] hd_split_prefixed [of "''rmdir''" w]
        hd_split_prefixed [of "''touch''" w] hd_split_prefixed [of "''mkdir''" w]
      by auto
  qed
qed

text \<open>
  Claim C10 says that the deterministic resolver never returns a command without its
  target and never a command that the built-in commands reject.  The first word of
  what it returns is indeed always one of the seven command names, but for
  \<^verbatim>\<open>delete file ""\<close> it returns \<^verbatim>\<open>rm\<close> followed by a blank and nothing else: the
  quotes are stripped after the name was found, and the deletion rule, unlike the
  creation rule, does not test the stripped name.  No built-in command accepts this
  line, and the answer is that \<^verbatim>\<open>rm\<close> is not available.
\<close>

theorem fallback_empty_target:
  "parse_with_fallback_patterns delete_quotes = Some ''rm ''
   \<and> split ''rm '' = [''rm'']
   \<and> builtin_command (example_web, example_os) (split ''rm '') = None
   \<and> web_execute_command 2 example_env (example_web, example_os) delete_quotes
       = Some ((example_web\<lparr>command_history := [delete_quotes, ''rm ''],
                             terminal_output := [Ai_interpreting ''rm '']\<rparr>, example_os),
               Not_available ''rm'')"
  by code_simp

section \<open>The two strategies\<close>

lemma run_lines_returns:
  "\<not> ai_enabled (fst s) \<Longrightarrow> web_run_lines (Suc (Suc depth)) env s lines \<noteq> None"
proof (induction lines arbitrary: s)
  case Nil
  then show ?case by simp
next
  case (Cons l ls)
  obtain s1 r where e: "web_execute_command (Suc (Suc depth)) env s l = Some (s1, r)"
    using deterministic_returns [OF Cons.prems, of depth env l]
    by (cases "web_execute_command (Suc (Suc depth)) env s l") auto
  have "\<not> ai_enabled (fst s1)"
    using deterministic_is_sticky [OF e Cons.prems] by simp
  from Cons.IH [OF this] show ?case
    using e by (simp del: web_execute_command.simps)
qed

text \<open>
  Claim C6, as amended.  An answer of the service with a status other than 200 turns
  the remote strategy off; once it is off every later line of the terminal returns, the
  strategy stays off, no further request is sent, and every resolution is the
  deterministic one.
  A request that raises (a timeout, a transport failure) or an answer without text
  fails that one resolution and leaves the remote strategy on.
\<close>

theorem status_failure_is_sticky:
  "(ai_enabled t \<and> gemini_api_key t \<noteq> [] \<and> has_requests env
      \<and> service env (api_calls t) command = Http_failure \<longrightarrow>
        \<not> ai_enabled (fst (parse_natural_language env t command))
        \<and> snd (parse_natural_language env t command) = None)
   \<and> (\<not> ai_enabled (fst s) \<longrightarrow> web_run_lines (Suc (Suc depth)) env s lines \<noteq> None)
   \<and> (\<not> ai_enabled (fst s) \<and> web_run_lines depth env s lines = Some s' \<longrightarrow>
        \<not> ai_enabled (fst s') \<and> api_calls (fst s') = api_calls (fst s))
   \<and> (\<not> ai_enabled t \<longrightarrow>
        parse_natural_language env t command = (t, parse_with_fallback_patterns command))
   \<and> (ai_enabled t \<and> service env (api_calls t) command \<noteq> Http_failure \<longrightarrow>
        ai_enabled (fst (parse_natural_language env t command)))"
proof (intro conjI impI)
  assume "ai_enabled t \<and> gemini_api_key t \<noteq> [] \<and> has_requests env
      \<and> service env (api_calls t) command = Http_failure"
  then show "\<not> ai_enabled (fst (parse_natural_language env t command))"
    and "snd (parse_natural_language env t command) = None"
    by (simp_all add: parse_natural_language_def parse_with_gemini_def call_gemini_api_def Let_def)
next
  assume "\<not> ai_enabled (fst s)"
  then show "web_run_lines (Suc (Suc depth)) env s lines \<noteq> None"
    by (rule run_lines_returns)
next
  assume "\<not> ai_enabled (fst s) \<and> web_run_lines depth env s lines = Some s'"
  then show "\<not> ai_enabled (fst s')" and "api_calls (fst s') = api_calls (fst s)"
    using run_lines_sticky [of depth env s lines s'] by simp_all
next
  assume "\<not> ai_enabled t"
  then show "parse_natural_language env t command = (t, parse_with_fallback_patterns command)"
    by (simp add: parse_natural_language_def)
next
  assume "ai_enabled t \<and> service env (api_calls t) command \<noteq> Http_failure"
  then show "ai_enabled (fst (parse_natural_language env t command))"
    by (auto simp: parse_natural_language_def parse_with_gemini_def call_gemini_api_def Let_def
             split: api_reply.splits option.splits)
qed

lemma failing_run:
  "web_run_lines 2 failing_env (remote_web, example_os) [''please help'']
     = Some (remote_web\<lparr>ai_enabled := False, command_history := [''please help''],
                         terminal_output := [Key_validation_failed], api_calls := 1\<rparr>,
             example_os)"
  by code_simp

text \<open>
  After a request that timed out the terminal is still on the remote strategy, and the
  next sentence is sent to the service again: a timeout does not demote the session.
\<close>

theorem timeout_does_not_disable:
  "web_run_lines 2 raising_env (remote_web, example_os) [''please help'']
     = Some (remote_web\<lparr>command_history := [''please help''],
                         terminal_output := [Ai_api_error], api_calls := 1\<rparr>, example_os)
   \<and> ai_enabled (remote_web\<lparr>command_history := [''please help''],
                         terminal_output := [Ai_api_error], api_calls := 1\<rparr>)
   \<and> web_run_lines 2 raising_env (remote_web, example_os) [''please help'', ''please help'']
     = Some (remote_web\<lparr>command_history := [''please help'', ''please help'', ''ls''],
                         terminal_output := [Ai_api_error, Ai_interpreting ''ls''],
                         api_calls := 2\<rparr>, example_os)"
  by code_simp

lemma failing_hyps:
  "ai_enabled remote_web \<and> gemini_api_key remote_web \<noteq> [] \<and> has_requests failing_env
   \<and> service failing_env (api_calls remote_web) ''please help'' = Http_failure"
  by code_simp

lemma show_files_run:
  "web_run_lines 2 example_env (example_web, example_os) [''show me the files'']
     = Some (example_web\<lparr>command_history := [''show me the files'', ''ls''],
                          terminal_output := [Ai_interpreting ''ls'']\<rparr>, example_os)"
  by code_simp

lemma raising_hyps: "service raising_env (api_calls remote_web) ''please help'' \<noteq> Http_failure"
  by code_simp

theorem status_failure_is_sticky_witness:
  "ai_enabled remote_web \<and> gemini_api_key remote_web \<noteq> [] \<and> has_requests failing_env
   \<and> service failing_env (api_calls remote_web) ''please help'' = Http_failure
   \<and> \<not> ai_enabled (fst (parse_natural_language failing_env remote_web ''please help''))
   \<and> \<not> ai_enabled example_web
   \<and> web_run_lines 2 example_env (example_web, example_os) [''show me the files'']
       = Some (example_web\<lparr>command_history := [''show me the files'', ''ls''],
                            terminal_output := [Ai_interpreting ''ls'']\<rparr>, example_os)
   \<and> api_calls (example_web\<lparr>command_history := [''show me the files'', ''ls''],
                            terminal_output := [Ai_interpreting ''ls'']\<rparr>)
       = api_calls example_web
   \<and> parse_natural_language example_env example_web ''show me the files''
       = (example_web, parse_with_fallback_patterns ''show me the files'')
   \<and> service raising_env (api_calls remote_web) ''please help'' \<noteq> Http_failure
   \<and> ai_enabled (fst (parse_natural_language raising_env remote_web ''please help''))"
  using failing_hyps show_files_run example_web_deterministic raising_hyps
    status_failure_is_sticky [where t = remote_web and env = failing_env
      and command = "''please help''" and s = "(example_web, example_os)" and depth = 2
      and lines = "[''show me the files'']"
      and s' = "(example_web\<lparr>command_history := [''show me the files'', ''ls''],
                            terminal_output := [Ai_interpreting ''ls'']\<rparr>, example_os)"]
    status_failure_is_sticky [where t = example_web and env = example_env
      and command = "''show me the files''" and s = "(example_web, example_os)" and depth = 2
      and lines = "[''show me the files'']"
      and s' = "(example_web\<lparr>command_history := [''show me the files'', ''ls''],
                            terminal_output := [Ai_interpreting ''ls'']\<rparr>, example_os)"]
    status_failure_is_sticky [where t = remote_web and env = raising_env
      and command = "''please help''" and s = "(example_web, example_os)" and depth = 2
      and lines = "[''show me the files'']"
      and s' = "(example_web\<lparr>command_history := [''show me the files'', ''ls''],
                            terminal_output := [Ai_interpreting ''ls'']\<rparr>, example_os)"]
  by simp

end
